theory Spec2Isabelle
  imports Main
begin

section \<open>The WebSocket hub of the real-time route (sardin-ai-project/deploy.sh)\<close>

text \<open>
  The route keeps one module-level \<^verbatim>\<open>const clients = new Set<WebSocket>()\<close> and a
  \<^verbatim>\<open>DataGenerators.broadcast(data)\<close> that writes one serialised message to every
  client of that set. The transport (the \<^verbatim>\<open>ws\<close> library) and \<^verbatim>\<open>JSON.stringify\<close>
  are not code of the repository: a socket is a record of what the route reads and of what
  \<^verbatim>\<open>send\<close> does to it, and the serialiser is a parameter \<open>stringify\<close> whose result
  \<open>None\<close> stands for the \<^verbatim>\<open>TypeError\<close> that \<^verbatim>\<open>JSON.stringify\<close> throws.
\<close>

datatype ready_state = CONNECTING | OPEN | CLOSING | CLOSED

text \<open>
  What the server writes to a socket: the text of a broadcast, the welcome message of the
  connection handler (stamped with the time), or the answer to a heartbeat (the client's
  timestamp and the server's time).
\<close>

datatype frame =
    Data string
  | Welcome nat
  | HeartbeatResponse string nat

text \<open>
  One \<^verbatim>\<open>WebSocket\<close> object. \<open>sendThrows\<close> says whether a call of \<^verbatim>\<open>send\<close>
  throws; \<open>sent\<close> is what \<^verbatim>\<open>send\<close> has accepted, in order; \<open>queued\<close> counts the
  accepted messages that the transport has not written out yet.
\<close>

record socket =
  readyState :: ready_state
  sendThrows :: bool
  sent :: "frame list"
  queued :: nat

text \<open>\<^verbatim>\<open>ws.send(message)\<close>: \<open>None\<close> when the call throws.\<close>

definition ws_send :: "frame \<Rightarrow> socket \<Rightarrow> socket option" where
  "ws_send m s =
     (if sendThrows s then None
      else Some (s\<lparr>sent := sent s @ [m], queued := Suc (queued s)\<rparr>))"

text \<open>
  The module state: the set \<open>clients\<close> of socket references in insertion order, the
  socket objects themselves (by reference), the sockets on which the connection handler has
  registered its \<^verbatim>\<open>message\<close>, \<^verbatim>\<open>close\<close> and \<^verbatim>\<open>error\<close> listeners, and the console.
\<close>

record hub =
  clients :: "nat list"
  sock :: "nat \<Rightarrow> socket"
  handlers :: "nat list"
  console :: "string list"

text \<open>\<^verbatim>\<open>Set.prototype.add\<close> and \<^verbatim>\<open>Set.prototype.delete\<close> on the insertion-ordered set.\<close>

definition set_add :: "'a \<Rightarrow> 'a list \<Rightarrow> 'a list" where
  "set_add x xs = (if x \<in> set xs then xs else xs @ [x])"

definition set_delete :: "'a \<Rightarrow> 'a list \<Rightarrow> 'a list" where
  "set_delete x xs = removeAll x xs"

datatype error = SerializationError

text \<open>
  The body of the \<^verbatim>\<open>forEach\<close> callback of \<^verbatim>\<open>broadcast\<close>, for the client \<open>c\<close>:
  \<^verbatim>\<open>
  if (client.readyState === WebSocket.OPEN) {
    try { client.send(message); }
    catch (error) {
      console.error('Error sending message to client:', error);
      clients.delete(client);
    }
  }
  \<close>
\<close>

definition send_to :: "string \<Rightarrow> nat \<Rightarrow> hub \<Rightarrow> hub" where
  "send_to message c h =
     (if readyState (sock h c) = OPEN then
        (case ws_send (Data message) (sock h c) of
           Some s' \<Rightarrow> h\<lparr>sock := (sock h)(c := s')\<rparr>
         | None \<Rightarrow> h\<lparr>clients := set_delete c (clients h),
                     console := console h @ [''Error sending message to client:'']\<rparr>)
      else h)"

text \<open>
  \<^verbatim>\<open>clients.forEach\<close>: the callback deletes at most the element it is visiting, so the
  elements visited are those of the set when the loop starts.
\<close>

fun fan_out :: "string \<Rightarrow> nat list \<Rightarrow> hub \<Rightarrow> hub" where
  "fan_out message [] h = h"
| "fan_out message (c # cs) h = fan_out message cs (send_to message c h)"

text \<open>
  \<^verbatim>\<open>
  private broadcast(data: any) {
    const message = JSON.stringify(data);
    clients.forEach(client => { ... });
  }
  \<close>
  The serialisation is outside the \<^verbatim>\<open>try\<close> and before the loop: its exception leaves
  \<^verbatim>\<open>broadcast\<close>.
\<close>

definition broadcast :: "('d \<Rightarrow> string option) \<Rightarrow> 'd \<Rightarrow> hub \<Rightarrow> error + hub" where
  "broadcast stringify d h =
     (case stringify d of
        None \<Rightarrow> Inl SerializationError
      | Some message \<Rightarrow> Inr (fan_out message (clients h) h))"


subsection \<open>The connection handler and its listeners\<close>

text \<open>
  A message of a client after \<^verbatim>\<open>JSON.parse\<close>: its \<^verbatim>\<open>type\<close> with what the handler
  reads of it. \<open>Unparsable\<close> is a text on which \<^verbatim>\<open>JSON.parse\<close> throws, or a
  subscription without \<^verbatim>\<open>data\<close>: both end in the handler's \<^verbatim>\<open>catch\<close>.
\<close>

datatype client_msg =
    Heartbeat string
  | Subscribe "string list"
  | Unsubscribe "string list"
  | Other string
  | Unparsable

text \<open>An array in a template literal: its elements joined by commas.\<close>

fun join_comma :: "string list \<Rightarrow> string" where
  "join_comma [] = []"
| "join_comma [x] = x"
| "join_comma (x # y # ys) = x @ '','' @ join_comma (y # ys)"

text \<open>
  \<^verbatim>\<open>
  wss.on('connection', (ws) => {
    console.log('New WebSocket client connected');
    clients.add(ws);
    ws.send(JSON.stringify({ type: 'system', ... }));
    ws.on('message', ...); ws.on('close', ...); ws.on('error', ...);
  });
  \<close>
  The welcome message is sent outside any \<^verbatim>\<open>try\<close>: when it throws, the listeners are
  not registered and the socket stays in \<open>clients\<close>.
\<close>

definition on_connection :: "nat \<Rightarrow> nat \<Rightarrow> hub \<Rightarrow> hub" where
  "on_connection now c h =
     (let h1 = h\<lparr>clients := set_add c (clients h),
                  console := console h @ [''New WebSocket client connected'']\<rparr>
      in case ws_send (Welcome now) (sock h1 c) of
           Some s' \<Rightarrow> h1\<lparr>sock := (sock h1)(c := s'), handlers := set_add c (handlers h1)\<rparr>
         | None \<Rightarrow> h1)"

text \<open>
  \<^verbatim>\<open>
  ws.on('message', (message) => {
    try {
      const data = JSON.parse(message);
      if (data.type === 'heartbeat') { ws.send(JSON.stringify({ type: 'heartbeat_response', ... })); }
      if (data.type === 'subscribe') { console.log(`Client subscribed to: ${data.data.types}`); }
      if (data.type === 'unsubscribe') { console.log(`Client unsubscribed from: ${data.data.types}`); }
    } catch (error) { console.error('Error parsing client message:', error); }
  });
  \<close>
\<close>

definition on_message :: "nat \<Rightarrow> nat \<Rightarrow> client_msg \<Rightarrow> hub \<Rightarrow> hub" where
  "on_message now c msg h =
     (case msg of
        Heartbeat ts \<Rightarrow>
          (case ws_send (HeartbeatResponse ts now) (sock h c) of
             Some s' \<Rightarrow> h\<lparr>sock := (sock h)(c := s')\<rparr>
           | None \<Rightarrow> h\<lparr>console := console h @ [''Error parsing client message:'']\<rparr>)
      | Subscribe types \<Rightarrow>
          h\<lparr>console := console h @ [''Client subscribed to: '' @ join_comma types]\<rparr>
      | Unsubscribe types \<Rightarrow>
          h\<lparr>console := console h @ [''Client unsubscribed from: '' @ join_comma types]\<rparr>
      | Other t \<Rightarrow> h
      | Unparsable \<Rightarrow> h\<lparr>console := console h @ [''Error parsing client message:'']\<rparr>)"

text \<open>
  \<^verbatim>\<open>ws.on('close', () => { console.log('WebSocket client disconnected'); clients.delete(ws); })\<close>
  and
  \<^verbatim>\<open>ws.on('error', (error) => { console.error('WebSocket error:', error); clients.delete(ws); })\<close>.
\<close>

definition on_close :: "nat \<Rightarrow> hub \<Rightarrow> hub" where
  "on_close c h =
     h\<lparr>clients := set_delete c (clients h),
       console := console h @ [''WebSocket client disconnected'']\<rparr>"

definition on_error :: "nat \<Rightarrow> hub \<Rightarrow> hub" where
  "on_error c h =
     h\<lparr>clients := set_delete c (clients h), console := console h @ [''WebSocket error:'']\<rparr>"

text \<open>
  What reaches the module: a new connection, a message, a close or an error of a socket, a
  call of \<^verbatim>\<open>broadcast\<close> (by a generator's timer or by the \<^verbatim>\<open>POST\<close> handler, whose
  \<^verbatim>\<open>catch\<close> answers 500 when the call throws), the transport writing out what a socket
  has queued, and the transport changing the ready state of a socket and whether a write to
  it throws. Every event comes with the time at which it is handled; the listeners of a
  socket run only once they are registered.
\<close>

datatype 'd event =
    Connection nat
  | Message nat client_msg
  | Close nat
  | Error nat
  | Publish 'd
  | Drain nat
  | Transport nat ready_state bool

definition step :: "('d \<Rightarrow> string option) \<Rightarrow> nat \<Rightarrow> 'd event \<Rightarrow> hub \<Rightarrow> hub" where
  "step stringify now ev h =
     (case ev of
        Connection c \<Rightarrow> on_connection now c h
      | Message c msg \<Rightarrow> if c \<in> set (handlers h) then on_message now c msg h else h
      | Close c \<Rightarrow> if c \<in> set (handlers h) then on_close c h else h
      | Error c \<Rightarrow> if c \<in> set (handlers h) then on_error c h else h
      | Publish d \<Rightarrow> (case broadcast stringify d h of Inl e \<Rightarrow> h | Inr h' \<Rightarrow> h')
      | Drain c \<Rightarrow> h\<lparr>sock := (sock h)(c := (sock h c)\<lparr>queued := 0\<rparr>)\<rparr>
      | Transport c r t \<Rightarrow>
          h\<lparr>sock := (sock h)(c := (sock h c)\<lparr>readyState := r, sendThrows := t\<rparr>)\<rparr>)"

text \<open>The event leaves the transport of the socket \<open>c\<close> as it is.\<close>

definition steady :: "nat \<Rightarrow> 'd event \<Rightarrow> bool" where
  "steady c ev = (case ev of Transport c' r t \<Rightarrow> c' \<noteq> c | _ \<Rightarrow> True)"

fun run :: "('d \<Rightarrow> string option) \<Rightarrow> (nat \<times> 'd event) list \<Rightarrow> hub \<Rightarrow> hub" where
  "run stringify [] h = h"
| "run stringify ((now, ev) # evs) h = run stringify evs (step stringify now ev h)"

text \<open>The module when it is loaded: no client, no listener, every socket open and unused.\<close>

definition fresh_socket :: socket where
  "fresh_socket = \<lparr>readyState = OPEN, sendThrows = False, sent = [], queued = 0\<rparr>"

definition hub0 :: hub where
  "hub0 = \<lparr>clients = [], sock = (\<lambda>c. fresh_socket), handlers = [], console = []\<rparr>"

text \<open>
  The data the generators and the \<^verbatim>\<open>POST\<close> handler pass to \<^verbatim>\<open>broadcast\<close>
  (\<^verbatim>\<open>RealtimeData\<close>): \<^verbatim>\<open>{ type, timestamp, data }\<close>; the optional \<^verbatim>\<open>location\<close> is
  taken as part of the payload. The hub never reads \<^verbatim>\<open>type\<close>; the client looks its
  listeners up by it.
\<close>

record 'p realtime_data =
  type :: string
  timestamp :: string
  data :: 'p

text \<open>The texts of the broadcasts among the frames written to a socket, in order.\<close>

fun data_frames :: "frame list \<Rightarrow> string list" where
  "data_frames [] = []"
| "data_frames (Data m # fs) = m # data_frames fs"
| "data_frames (f # fs) = data_frames fs"

subsection \<open>The registry of the specification\<close>

text \<open>
  The registry as the specification words it (section 4.1), driven by the messages the hub
  receives: \<^verbatim>\<open>subscribe\<close> adds the connection to the set of each topic it names,
  \<^verbatim>\<open>unsubscribe\<close> removes it, and a close or an error of the connection removes it from
  every topic. \<open>spec_subscribersOf T evs\<close> is the set of the topic \<open>T\<close> after the events
  \<open>evs\<close>. The route itself keeps no such set; this definition is what its behaviour is
  compared with.
\<close>

definition spec_registry_step :: "string \<Rightarrow> 'd event \<Rightarrow> nat list \<Rightarrow> nat list" where
  "spec_registry_step T ev S =
     (case ev of
        Message c msg \<Rightarrow>
          (case msg of
             Subscribe types \<Rightarrow> if T \<in> set types then set_add c S else S
           | Unsubscribe types \<Rightarrow> if T \<in> set types then set_delete c S else S
           | _ \<Rightarrow> S)
      | Close c \<Rightarrow> set_delete c S
      | Error c \<Rightarrow> set_delete c S
      | _ \<Rightarrow> S)"

fun spec_registry :: "string \<Rightarrow> (nat \<times> 'd event) list \<Rightarrow> nat list \<Rightarrow> nat list" where
  "spec_registry T [] S = S"
| "spec_registry T ((now, ev) # evs) S = spec_registry T evs (spec_registry_step T ev S)"

definition spec_subscribersOf :: "string \<Rightarrow> (nat \<times> 'd event) list \<Rightarrow> nat list" where
  "spec_subscribersOf T evs = spec_registry T evs []"

text \<open>
  The liveness rule as the specification words it: the time at which a connection was last
  heard (its connection or its latest heartbeat), and whether at the time \<open>now\<close> it has
  been silent for more than the timeout plus one heartbeat interval.
\<close>

definition hears :: "nat \<Rightarrow> 'd event \<Rightarrow> bool" where
  "hears c ev =
     (case ev of
        Connection c' \<Rightarrow> c' = c
      | Message c' msg \<Rightarrow> c' = c \<and> (case msg of Heartbeat ts \<Rightarrow> True | _ \<Rightarrow> False)
      | _ \<Rightarrow> False)"

fun last_heard :: "nat \<Rightarrow> (nat \<times> 'd event) list \<Rightarrow> nat option \<Rightarrow> nat option" where
  "last_heard c [] t = t"
| "last_heard c ((now, ev) # evs) t = last_heard c evs (if hears c ev then Some now else t)"

definition spec_expired :: "nat \<Rightarrow> nat \<Rightarrow> nat \<Rightarrow> nat \<Rightarrow> (nat \<times> 'd event) list \<Rightarrow> bool" where
  "spec_expired timeout interval now c evs =
     (case last_heard c evs None of
        None \<Rightarrow> False
      | Some t \<Rightarrow> t + timeout + interval < now)"

section \<open>The Socket.IO handlers (src/lib/socket.ts)\<close>

text \<open>
  What \<^verbatim>\<open>socket.emit\<close> sends to one client, and the server: the members of each room
  (a set of socket ids, as Socket.IO keeps it), what was emitted to each socket, the console.
\<close>

datatype io_packet =
    EchoMessage string nat
  | SubscriptionConfirmed "string list" nat
  | IoHeartbeatResponse string nat
  | System nat nat

record io_server =
  rooms :: "string \<Rightarrow> nat list"
  emitted :: "nat \<Rightarrow> io_packet list"
  io_console :: "string list"

text \<open>
  \<^verbatim>\<open>
  socket.on('subscribe', (data: { types: string[] }) => {
    console.log(`Client ${socket.id} subscribed to:`, data.types);
    socket.join('realtime-data');
    socket.emit('subscription-confirmed', { types: data.types, timestamp: ... });
  });
  socket.on('unsubscribe', (data: { types: string[] }) => {
    console.log(`Client ${socket.id} unsubscribed from:`, data.types);
    socket.leave('realtime-data');
  });
  \<close>
  The room is the same whatever the types are. The console lines are kept without the
  socket id.
\<close>

definition io_subscribe :: "nat \<Rightarrow> nat \<Rightarrow> string list \<Rightarrow> io_server \<Rightarrow> io_server" where
  "io_subscribe now sid types srv =
     srv\<lparr>rooms := (rooms srv)(''realtime-data'' := set_add sid (rooms srv ''realtime-data'')),
         emitted := (emitted srv)(sid := emitted srv sid @ [SubscriptionConfirmed types now]),
         io_console := io_console srv @ [''Client subscribed to: '' @ join_comma types]\<rparr>"

definition io_unsubscribe :: "nat \<Rightarrow> string list \<Rightarrow> io_server \<Rightarrow> io_server" where
  "io_unsubscribe sid types srv =
     srv\<lparr>rooms := (rooms srv)(''realtime-data'' := set_delete sid (rooms srv ''realtime-data'')),
         io_console := io_console srv @ [''Client unsubscribed from: '' @ join_comma types]\<rparr>"



definition io_server0 :: io_server where
  "io_server0 = \<lparr>rooms = (\<lambda>r. []), emitted = (\<lambda>sid. []), io_console = []\<rparr>"

section \<open>The client: RealtimeService\<close>

text \<open>
  The fields of the class, and after them what its methods do to the outside: the delays
  given to \<^verbatim>\<open>setTimeout(() => this.connect(), delay)\<close>, the number of pending
  \<^verbatim>\<open>setTimeout(processNext, 0)\<close>, the calls of listeners with their argument, what was
  given to \<^verbatim>\<open>ws.send\<close>, and the console. \<open>ws\<close> is \<^verbatim>\<open>null\<close> or the ready state of
  the client's socket. A listener is named by a number; \<open>throws cb d\<close> says whether the
  listener \<open>cb\<close> throws on the data \<open>d\<close>.
\<close>

datatype connection_status = Connecting | Connected | Disconnected

record 'p rt_service =
  ws :: "ready_state option"
  reconnectAttempts :: nat
  maxReconnectAttempts :: nat
  reconnectDelay :: nat
  listeners :: "string \<rightharpoonup> nat list"
  connectionStatus :: connection_status
  heartbeatInterval :: "nat option"
  messageQueue :: "'p realtime_data list"
  isProcessingQueue :: bool
  timeouts :: "nat list"
  processNextPending :: nat
  invoked :: "(nat \<times> 'p realtime_data) list"
  outbox :: "client_msg list"
  warnings :: "string list"

text \<open>
  \<^verbatim>\<open>
  private attemptReconnect() {
    if (this.reconnectAttempts >= this.maxReconnectAttempts) { console.log(...); return; }
    this.reconnectAttempts++;
    const delay = this.reconnectDelay * Math.pow(2, this.reconnectAttempts - 1);
    setTimeout(() => { this.connect(); }, delay);
  }
  \<close>
\<close>

definition attemptReconnect :: "'p rt_service \<Rightarrow> 'p rt_service" where
  "attemptReconnect st =
     (if reconnectAttempts st \<ge> maxReconnectAttempts st then
        st\<lparr>warnings := warnings st @ [''Max reconnection attempts reached'']\<rparr>
      else
        (let st1 = st\<lparr>reconnectAttempts := reconnectAttempts st + 1\<rparr>;
             delay = reconnectDelay st1 * 2 ^ (reconnectAttempts st1 - 1)
         in st1\<lparr>timeouts := timeouts st1 @ [delay]\<rparr>))"

text \<open>
  \<^verbatim>\<open>connect()\<close>: \<open>ok\<close> says whether \<^verbatim>\<open>new WebSocket(wsUrl)\<close> returns; when it throws,
  the \<^verbatim>\<open>catch\<close> calls \<^verbatim>\<open>attemptReconnect\<close>.
\<close>

definition connect :: "bool \<Rightarrow> 'p rt_service \<Rightarrow> 'p rt_service" where
  "connect ok st =
     (if ok then st\<lparr>ws := Some CONNECTING, connectionStatus := Connecting\<rparr>
      else attemptReconnect (st\<lparr>warnings := warnings st @ [''Failed to connect to WebSocket:'']\<rparr>))"

text \<open>\<^verbatim>\<open>startHeartbeat\<close> (an interval of 30000 ms) and \<^verbatim>\<open>stopHeartbeat\<close>.\<close>

definition startHeartbeat :: "'p rt_service \<Rightarrow> 'p rt_service" where
  "startHeartbeat st = st\<lparr>heartbeatInterval := Some 30000\<rparr>"

definition stopHeartbeat :: "'p rt_service \<Rightarrow> 'p rt_service" where
  "stopHeartbeat st = st\<lparr>heartbeatInterval := None\<rparr>"

text \<open>The callback of the interval: a heartbeat with the current time, when the socket is open.\<close>

definition heartbeatTick :: "string \<Rightarrow> 'p rt_service \<Rightarrow> 'p rt_service" where
  "heartbeatTick now st =
     (if ws st = Some OPEN then st\<lparr>outbox := outbox st @ [Heartbeat now]\<rparr> else st)"

text \<open>
  One listener call inside \<^verbatim>\<open>try { listener(data) } catch (error) { console.error(...) }\<close>.
\<close>

definition call_listener ::
  "(nat \<Rightarrow> 'p realtime_data \<Rightarrow> bool) \<Rightarrow> 'p realtime_data \<Rightarrow> 'p rt_service \<Rightarrow> nat \<Rightarrow> 'p rt_service" where
  "call_listener throws d st cb =
     (let st1 = st\<lparr>invoked := invoked st @ [(cb, d)]\<rparr>
      in if throws cb d then st1\<lparr>warnings := warnings st1 @ [''Error in WebSocket listener:'']\<rparr>
         else st1)"

text \<open>\<^verbatim>\<open>this.listeners.get(type) || []\<close>.\<close>

definition listeners_of :: "'p rt_service \<Rightarrow> string \<Rightarrow> nat list" where
  "listeners_of st t = (case listeners st t of None \<Rightarrow> [] | Some l \<Rightarrow> l)"

text \<open>
  \<^verbatim>\<open>
  private handleMessage(data: RealtimeData) {
    if (this.isProcessingQueue) { this.messageQueue.push(data); return; }
    const typeListeners = this.listeners.get(data.type) || [];
    const allListeners = this.listeners.get('*') || [];
    [...typeListeners, ...allListeners].forEach(listener => { try ... catch ... });
  }
  \<close>
\<close>

definition handleMessage ::
  "(nat \<Rightarrow> 'p realtime_data \<Rightarrow> bool) \<Rightarrow> 'p realtime_data \<Rightarrow> 'p rt_service \<Rightarrow> 'p rt_service" where
  "handleMessage throws d st =
     (if isProcessingQueue st then st\<lparr>messageQueue := messageQueue st @ [d]\<rparr>
      else
        (let typeListeners = listeners_of st (type d);
             allListeners = listeners_of st ''*''
         in foldl (call_listener throws d) st (typeListeners @ allListeners)))"

text \<open>
  \<^verbatim>\<open>processNext\<close>, one run of it: each further run is a task of its own
  (\<^verbatim>\<open>setTimeout(processNext, 0)\<close>), counted in \<open>processNextPending\<close>. A queued message
  is an object, so the test \<^verbatim>\<open>if (message)\<close> after \<^verbatim>\<open>shift()\<close> holds.
\<close>

definition processNext ::
  "(nat \<Rightarrow> 'p realtime_data \<Rightarrow> bool) \<Rightarrow> 'p rt_service \<Rightarrow> 'p rt_service" where
  "processNext throws st =
     (case messageQueue st of
        [] \<Rightarrow> st\<lparr>isProcessingQueue := False\<rparr>
      | message # rest \<Rightarrow>
          (let st1 = handleMessage throws message (st\<lparr>messageQueue := rest\<rparr>)
           in st1\<lparr>processNextPending := processNextPending st1 + 1\<rparr>))"

definition processMessageQueue ::
  "(nat \<Rightarrow> 'p realtime_data \<Rightarrow> bool) \<Rightarrow> 'p rt_service \<Rightarrow> 'p rt_service" where
  "processMessageQueue throws st =
     (if isProcessingQueue st \<or> messageQueue st = [] then st
      else processNext throws (st\<lparr>isProcessingQueue := True\<rparr>))"

text \<open>
  \<^verbatim>\<open>
  public subscribe(type, callback) {
    if (!this.listeners.has(type)) { this.listeners.set(type, []); }
    this.listeners.get(type)!.push(callback);
    return () => { ... const index = typeListeners.indexOf(callback);
                   if (index > -1) { typeListeners.splice(index, 1); } ... };
  }
  \<close>
  \<open>unsubscribeFn type cb\<close> is the function that \<open>subscribe type cb\<close> returns.
\<close>

definition subscribe :: "string \<Rightarrow> nat \<Rightarrow> 'p rt_service \<Rightarrow> 'p rt_service" where
  "subscribe t cb st = st\<lparr>listeners := (listeners st)(t \<mapsto> listeners_of st t @ [cb])\<rparr>"

definition unsubscribeFn :: "string \<Rightarrow> nat \<Rightarrow> 'p rt_service \<Rightarrow> 'p rt_service" where
  "unsubscribeFn t cb st =
     (case listeners st t of
        None \<Rightarrow> st
      | Some typeListeners \<Rightarrow> st\<lparr>listeners := (listeners st)(t \<mapsto> remove1 cb typeListeners)\<rparr>)"

definition unsubscribeAll :: "'p rt_service \<Rightarrow> 'p rt_service" where
  "unsubscribeAll st = st\<lparr>listeners := Map.empty\<rparr>"

text \<open>\<^verbatim>\<open>send(data)\<close>: written to the socket when it is open, a warning otherwise.\<close>

definition send :: "client_msg \<Rightarrow> 'p rt_service \<Rightarrow> 'p rt_service" where
  "send msg st =
     (if ws st = Some OPEN then st\<lparr>outbox := outbox st @ [msg]\<rparr>
      else st\<lparr>warnings := warnings st @ [''WebSocket not connected, cannot send message'']\<rparr>)"

text \<open>\<^verbatim>\<open>disconnect()\<close>: the close event of the socket comes later, as an event of its own.\<close>

definition disconnect :: "'p rt_service \<Rightarrow> 'p rt_service" where
  "disconnect st = unsubscribeAll ((stopHeartbeat st)\<lparr>ws := None\<rparr>)"

text \<open>The handlers that \<^verbatim>\<open>connect\<close> installs on the socket.\<close>

definition onopen :: "(nat \<Rightarrow> 'p realtime_data \<Rightarrow> bool) \<Rightarrow> 'p rt_service \<Rightarrow> 'p rt_service" where
  "onopen throws st =
     processMessageQueue throws
       (startHeartbeat (st\<lparr>ws := map_option (\<lambda>r. OPEN) (ws st),
                           connectionStatus := Connected, reconnectAttempts := 0\<rparr>))"

text \<open>
  \<^verbatim>\<open>onmessage\<close>: \<open>None\<close> is a text on which \<^verbatim>\<open>JSON.parse\<close> throws, or whose value has
  no \<^verbatim>\<open>type\<close> to read (\<^verbatim>\<open>null\<close>); both end in the handler's \<^verbatim>\<open>catch\<close>.
\<close>

definition onmessage ::
  "(nat \<Rightarrow> 'p realtime_data \<Rightarrow> bool) \<Rightarrow> 'p realtime_data option \<Rightarrow> 'p rt_service \<Rightarrow> 'p rt_service" where
  "onmessage throws parsed st =
     (case parsed of
        None \<Rightarrow> st\<lparr>warnings := warnings st @ [''Error parsing WebSocket message:'']\<rparr>
      | Some d \<Rightarrow> handleMessage throws d st)"

definition onclose :: "'p rt_service \<Rightarrow> 'p rt_service" where
  "onclose st =
     attemptReconnect
       (stopHeartbeat (st\<lparr>ws := map_option (\<lambda>r. CLOSED) (ws st), connectionStatus := Disconnected\<rparr>))"

definition onerror :: "'p rt_service \<Rightarrow> 'p rt_service" where
  "onerror st = st\<lparr>connectionStatus := Disconnected,
                   warnings := warnings st @ [''WebSocket error:'']\<rparr>"

text \<open>
  What happens to the client: the events of its socket, its timers firing, and the calls of
  its public methods. \<open>ReconnectTimer ok\<close> is a timer of \<^verbatim>\<open>attemptReconnect\<close> firing.
\<close>

datatype 'p client_event =
    WsOpen
  | WsMessage "'p realtime_data option"
  | WsClose
  | WsError
  | ReconnectTimer bool
  | HeartbeatTimer string
  | ProcessNextTimer
  | CallSubscribe string nat
  | CallUnsubscribeFn string nat
  | CallUnsubscribeAll
  | CallSend client_msg
  | CallDisconnect

definition client_step ::
  "(nat \<Rightarrow> 'p realtime_data \<Rightarrow> bool) \<Rightarrow> 'p client_event \<Rightarrow> 'p rt_service \<Rightarrow> 'p rt_service" where
  "client_step throws ev st =
     (case ev of
        WsOpen \<Rightarrow> onopen throws st
      | WsMessage parsed \<Rightarrow> onmessage throws parsed st
      | WsClose \<Rightarrow> onclose st
      | WsError \<Rightarrow> onerror st
      | ReconnectTimer ok \<Rightarrow> connect ok st
      | HeartbeatTimer now \<Rightarrow> (if heartbeatInterval st = None then st else heartbeatTick now st)
      | ProcessNextTimer \<Rightarrow>
          (if processNextPending st = 0 then st
           else processNext throws (st\<lparr>processNextPending := processNextPending st - 1\<rparr>))
      | CallSubscribe t cb \<Rightarrow> subscribe t cb st
      | CallUnsubscribeFn t cb \<Rightarrow> unsubscribeFn t cb st
      | CallUnsubscribeAll \<Rightarrow> unsubscribeAll st
      | CallSend msg \<Rightarrow> send msg st
      | CallDisconnect \<Rightarrow> disconnect st)"

fun client_run ::
  "(nat \<Rightarrow> 'p realtime_data \<Rightarrow> bool) \<Rightarrow> 'p client_event list \<Rightarrow> 'p rt_service \<Rightarrow> 'p rt_service" where
  "client_run throws [] st = st"
| "client_run throws (ev # evs) st = client_run throws evs (client_step throws ev st)"

text \<open>The object after its field initialisers, and after the constructor's \<^verbatim>\<open>connect()\<close>.\<close>

definition rt_fields :: "'p rt_service" where
  "rt_fields =
     \<lparr>ws = None, reconnectAttempts = 0, maxReconnectAttempts = 5, reconnectDelay = 1000,
      listeners = Map.empty, connectionStatus = Disconnected, heartbeatInterval = None,
      messageQueue = [], isProcessingQueue = False, timeouts = [], processNextPending = 0,
      invoked = [], outbox = [], warnings = []\<rparr>"

definition new_service :: "bool \<Rightarrow> 'p rt_service" where
  "new_service ok = connect ok rt_fields"

text \<open>
  The callbacks registered for the type \<open>t\<close>, read off the calls made on the client and not
  off its state: a \<^verbatim>\<open>subscribe(t, cb)\<close> registers \<open>cb\<close> after those already there, the function
  it returned takes one registration of \<open>cb\<close> away, and \<^verbatim>\<open>unsubscribeAll()\<close> and
  \<^verbatim>\<open>disconnect()\<close> take all away. This is what the dispatch of the client is compared with.
\<close>

definition reg_step :: "string \<Rightarrow> 'p client_event \<Rightarrow> nat list \<Rightarrow> nat list" where
  "reg_step t ev cbs =
     (case ev of
        CallSubscribe t' cb \<Rightarrow> if t' = t then cbs @ [cb] else cbs
      | CallUnsubscribeFn t' cb \<Rightarrow> if t' = t then remove1 cb cbs else cbs
      | CallUnsubscribeAll \<Rightarrow> []
      | CallDisconnect \<Rightarrow> []
      | _ \<Rightarrow> cbs)"

fun registered :: "string \<Rightarrow> 'p client_event list \<Rightarrow> nat list \<Rightarrow> nat list" where
  "registered t [] cbs = cbs"
| "registered t (ev # evs) cbs = registered t evs (reg_step t ev cbs)"

text \<open>The failures among the events of a client: a close of the socket, or a connect that throws.\<close>

definition is_failure :: "'p client_event \<Rightarrow> bool" where
  "is_failure ev = (case ev of WsClose \<Rightarrow> True | ReconnectTimer ok \<Rightarrow> \<not> ok | _ \<Rightarrow> False)"

definition failures :: "'p client_event list \<Rightarrow> nat" where
  "failures evs = length (filter is_failure evs)"

text \<open>
  The client has nothing queued: it is not processing its queue, the queue is empty and no
  \<^verbatim>\<open>processNext\<close> is pending.
\<close>

definition idle :: "'p rt_service \<Rightarrow> bool" where
  "idle st = (\<not> isProcessingQueue st \<and> messageQueue st = [] \<and> processNextPending st = 0)"

section \<open>Concrete inputs\<close>

text \<open>
  A serialiser for envelopes whose payload is a text: it fails on the payload
  \<open>''<bigint>''\<close>, as \<^verbatim>\<open>JSON.stringify\<close> does on a \<^verbatim>\<open>BigInt\<close>.
\<close>

definition encode :: "string realtime_data \<Rightarrow> string option" where
  "encode d = (if data d = ''<bigint>'' then None else Some (type d @ '':'' @ data d))"

definition alert0 :: "string realtime_data" where
  "alert0 = \<lparr>type = ''alert'', timestamp = ''t0'', data = ''Storm''\<rparr>"

text \<open>Two connected sockets; every \<^verbatim>\<open>send\<close> on the first throws.\<close>

definition hubW :: hub where
  "hubW = hub0\<lparr>clients := [1, 2], handlers := [1, 2],
             sock := (sock hub0)(1 := fresh_socket\<lparr>sendThrows := True\<rparr>)\<rparr>"

definition ocean0 :: "string realtime_data" where
  "ocean0 = \<lparr>type = ''oceanographic'', timestamp = ''t0'', data = ''sst=18''\<rparr>"



text \<open>
  Scenario A of the specification: two connections, the first subscribes to \<open>alert\<close>.
\<close>

definition scenario_A :: "(nat \<times> string realtime_data event) list" where
  "scenario_A = [(0, Connection 1), (1, Connection 2), (2, Message 1 (Subscribe [''alert'']))]"

text \<open>Scenario B: a connection subscribes to \<open>oceanographic\<close> and unsubscribes.\<close>

definition scenario_B :: "(nat \<times> string realtime_data event) list" where
  "scenario_B = [(0, Connection 1), (1, Message 1 (Subscribe [''oceanographic''])),
                 (2, Message 1 (Unsubscribe [''oceanographic'']))]"


text \<open>A connection that is sent three broadcasts while its transport writes nothing out.\<close>

definition scenario_D :: "(nat \<times> string realtime_data event) list" where
  "scenario_D = [(0, Connection 1), (1, Publish alert0), (2, Publish alert0), (3, Publish alert0)]"

text \<open>
  A connection that subscribes to \<open>alert\<close>, sends one heartbeat at 30 s and is silent from
  then on.
\<close>

definition scenario_E :: "(nat \<times> string realtime_data event) list" where
  "scenario_E = [(0, Connection 1), (10, Message 1 (Subscribe [''alert''])),
                 (30000, Message 1 (Heartbeat ''t30''))]"

text \<open>
  Events after a connection has left, and events in which the socket 2 neither closes nor
  fails.
\<close>

definition events_W :: "(nat \<times> string realtime_data event) list" where
  "events_W = [(5, Publish ocean0), (6, Message 2 (Heartbeat ''t6'')), (7, Publish alert0)]"

definition events_H :: "(nat \<times> string realtime_data event) list" where
  "events_H = [(30000, Message 2 (Heartbeat ''t1'')), (500000, Publish alert0),
               (800000, Transport 1 CLOSING False), (900000, Close 1), (1000000, Publish ocean0)]"

text \<open>
  A client whose socket closes again and again and whose \<^verbatim>\<open>new WebSocket\<close> throws once
  (eight failures).
\<close>

definition failing_run :: "string client_event list" where
  "failing_run = [ReconnectTimer True, WsClose, ReconnectTimer True, WsClose, ReconnectTimer False,
                  WsMessage None, WsClose, ReconnectTimer True, WsError, WsClose, ReconnectTimer True,
                  WsClose, ReconnectTimer True, WsClose, WsClose]"

text \<open>
  A client that opens, registers the listeners 7, 9 and 6 for \<open>alert\<close>, 8 for \<open>*\<close> and 5
  for \<open>vessel\<close>, and takes the listener 6 away again.
\<close>

definition dispatch_run :: "string client_event list" where
  "dispatch_run = [WsOpen, CallSubscribe ''alert'' 7, CallSubscribe ''*'' 8, CallSubscribe ''alert'' 9,
                   CallSubscribe ''vessel'' 5, CallSubscribe ''alert'' 6, CallUnsubscribeFn ''alert'' 6]"

text \<open>A client that opens and registers two listeners.\<close>

definition listening_run :: "string client_event list" where
  "listening_run = [WsOpen, CallSubscribe ''alert'' 7, CallSubscribe ''*'' 8]"

section \<open>The fan-out loop\<close>

lemma set_add_set: "set (set_add x xs) = insert x (set xs)"
  by (auto simp: set_add_def)

lemma set_add_distinct: "distinct xs \<Longrightarrow> distinct (set_add x xs)"
  by (simp add: set_add_def)

lemma set_delete_set: "set (set_delete x xs) = set xs - {x}"
  by (auto simp: set_delete_def)

lemma set_delete_distinct: "distinct xs \<Longrightarrow> distinct (set_delete x xs)"
  by (simp add: set_delete_def distinct_removeAll)

lemma send_to_other: "c' \<noteq> c \<Longrightarrow> sock (send_to m c h) c' = sock h c'"
  by (simp add: send_to_def ws_send_def)

lemma send_to_readyState: "readyState (sock (send_to m c h) c') = readyState (sock h c')"
  by (simp add: send_to_def ws_send_def)

lemma send_to_sendThrows: "sendThrows (sock (send_to m c h) c') = sendThrows (sock h c')"
  by (simp add: send_to_def ws_send_def)

lemma send_to_self:
  "sock (send_to m c h) c =
     (if readyState (sock h c) = OPEN \<and> \<not> sendThrows (sock h c)
      then (sock h c)\<lparr>sent := sent (sock h c) @ [Data m], queued := Suc (queued (sock h c))\<rparr>
      else sock h c)"
  by (simp add: send_to_def ws_send_def)

lemma send_to_clients:
  "clients (send_to m c h) =
     (if readyState (sock h c) = OPEN \<and> sendThrows (sock h c)
      then set_delete c (clients h) else clients h)"
  by (simp add: send_to_def ws_send_def)

lemma fan_out_not_visited: "c \<notin> set cs \<Longrightarrow> sock (fan_out m cs h) c = sock h c"
  by (induction cs arbitrary: h) (auto simp: send_to_other)

lemma fan_out_readyState: "readyState (sock (fan_out m cs h) c) = readyState (sock h c)"
  by (induction cs arbitrary: h) (auto simp: send_to_readyState)

lemma fan_out_sendThrows: "sendThrows (sock (fan_out m cs h) c) = sendThrows (sock h c)"
  by (induction cs arbitrary: h) (auto simp: send_to_sendThrows)

lemma fan_out_visited:
  "distinct cs \<Longrightarrow> c \<in> set cs \<Longrightarrow> sock (fan_out m cs h) c = sock (send_to m c h) c"
proof (induction cs arbitrary: h)
  case Nil
  then show ?case by simp
next
  case (Cons a cs)
  show ?case
  proof (cases "a = c")
    case True
    with Cons.prems have "c \<notin> set cs" by simp
    with True show ?thesis by (simp add: fan_out_not_visited)
  next
    case False
    with Cons.prems have "distinct cs" "c \<in> set cs" by simp_all
    then have "sock (fan_out m cs (send_to m a h)) c = sock (send_to m c (send_to m a h)) c"
      by (rule Cons.IH)
    also have "\<dots> = sock (send_to m c h) c"
      using False
      by (simp add: send_to_self send_to_other send_to_readyState send_to_sendThrows)
    finally show ?thesis by simp
  qed
qed

lemma fan_out_clients:
  "clients (fan_out m cs h) =
     filter (\<lambda>c. \<not> (c \<in> set cs \<and> readyState (sock h c) = OPEN \<and> sendThrows (sock h c)))
       (clients h)"
proof (induction cs arbitrary: h)
  case Nil
  then show ?case by simp
next
  case (Cons a cs)
  have "clients (fan_out m (a # cs) h) =
          filter (\<lambda>c. \<not> (c \<in> set cs \<and> readyState (sock h c) = OPEN \<and> sendThrows (sock h c)))
            (clients (send_to m a h))"
    by (simp add: Cons.IH send_to_readyState send_to_sendThrows)
  also have "\<dots> =
          filter (\<lambda>c. \<not> (c \<in> set (a # cs) \<and> readyState (sock h c) = OPEN \<and> sendThrows (sock h c)))
            (clients h)"
    by (auto simp: send_to_clients set_delete_def removeAll_filter_not_eq intro!: filter_cong)
  finally show ?case .
qed


lemma data_frames_append: "data_frames (xs @ ys) = data_frames xs @ data_frames ys"
  by (induction xs rule: data_frames.induct) auto

lemma broadcast_Inr: "stringify d = Some m \<Longrightarrow> broadcast stringify d h = Inr (fan_out m (clients h) h)"
  by (simp add: broadcast_def)


lemma fan_out_handlers: "handlers (fan_out m cs h) = handlers h"
  by (induction cs arbitrary: h) (auto simp: send_to_def split: option.splits)

lemma fan_out_sent:
  "distinct cs \<Longrightarrow>
   sent (sock (fan_out m cs h) c) =
     sent (sock h c) @ (if c \<in> set cs \<and> readyState (sock h c) = OPEN \<and> \<not> sendThrows (sock h c)
                        then [Data m] else [])"
  by (cases "c \<in> set cs") (simp_all add: fan_out_visited fan_out_not_visited send_to_self)

lemma fan_out_queued:
  "distinct cs \<Longrightarrow>
   queued (sock (fan_out m cs h) c) =
     queued (sock h c) + (if c \<in> set cs \<and> readyState (sock h c) = OPEN \<and> \<not> sendThrows (sock h c)
                        then 1 else 0)"
  by (cases "c \<in> set cs") (simp_all add: fan_out_visited fan_out_not_visited send_to_self)

lemma fan_out_distinct: "distinct (clients h) \<Longrightarrow> distinct (clients (fan_out m cs h))"
  by (simp add: fan_out_clients)


section \<open>The handlers and the event loop of the hub\<close>

lemma on_connection_clients: "clients (on_connection now c h) = set_add c (clients h)"
  by (simp add: on_connection_def Let_def split: option.split)

lemma on_connection_sock:
  "sock (on_connection now c h) c' =
     (if c' = c \<and> \<not> sendThrows (sock h c)
      then (sock h c)\<lparr>sent := sent (sock h c) @ [Welcome now], queued := Suc (queued (sock h c))\<rparr>
      else sock h c')"
  by (simp add: on_connection_def Let_def ws_send_def)

lemma on_message_clients: "clients (on_message now c msg h) = clients h"
  by (cases msg) (simp_all add: on_message_def split: option.split)

lemma on_message_handlers: "handlers (on_message now c msg h) = handlers h"
  by (cases msg) (simp_all add: on_message_def split: option.split)

lemma on_message_sock:
  "sock (on_message now c msg h) c' =
     (case msg of
        Heartbeat ts \<Rightarrow>
          if c' = c \<and> \<not> sendThrows (sock h c)
          then (sock h c)\<lparr>sent := sent (sock h c) @ [HeartbeatResponse ts now],
                          queued := Suc (queued (sock h c))\<rparr>
          else sock h c'
      | _ \<Rightarrow> sock h c')"
  by (cases msg) (simp_all add: on_message_def ws_send_def)

lemma on_message_Subscribe: 
  "clients (on_message now c (Subscribe ts) h) = clients h \<and>
   sock (on_message now c (Subscribe ts) h) = sock h \<and>
   handlers (on_message now c (Subscribe ts) h) = handlers h"
  by (simp add: on_message_def)

lemma on_message_Unsubscribe: 
  "clients (on_message now c (Unsubscribe ts) h) = clients h \<and>
   sock (on_message now c (Unsubscribe ts) h) = sock h \<and>
   handlers (on_message now c (Unsubscribe ts) h) = handlers h"
  by (simp add: on_message_def)

lemma on_close_sock: "sock (on_close c h) = sock h"
  by (simp add: on_close_def)

lemma on_error_sock: "sock (on_error c h) = sock h"
  by (simp add: on_error_def)

lemma on_close_clients: "clients (on_close c h) = set_delete c (clients h)"
  by (simp add: on_close_def)

lemma on_error_clients: "clients (on_error c h) = set_delete c (clients h)"
  by (simp add: on_error_def)

lemma step_Publish:
  "step stringify now (Publish d) h =
     (case stringify d of None \<Rightarrow> h | Some m \<Rightarrow> fan_out m (clients h) h)"
  by (simp add: step_def broadcast_def split: option.split)

lemma step_distinct: "distinct (clients h) \<Longrightarrow> distinct (clients (step stringify now ev h))"
proof (cases ev)
  case (Publish d)
  then show ?thesis if "distinct (clients h)"
    using that by (simp add: step_Publish fan_out_distinct split: option.split)
qed (simp_all add: step_def on_connection_clients on_message_clients on_close_clients
       on_error_clients set_add_distinct set_delete_distinct)

lemma run_distinct: "distinct (clients h) \<Longrightarrow> distinct (clients (run stringify evs h))"
  by (induction evs arbitrary: h) (auto simp: step_distinct)

lemma step_sendThrows:
  "steady c ev \<Longrightarrow> sendThrows (sock (step stringify now ev h) c) = sendThrows (sock h c)"
proof (cases ev)
  case (Message c' msg)
  then show ?thesis
    by (cases msg) (simp_all add: step_def on_message_sock)
next
  case (Publish d)
  then show ?thesis
    by (simp add: step_Publish fan_out_sendThrows split: option.split)
qed (simp_all add: step_def on_connection_sock on_close_sock on_error_sock steady_def)

lemma step_readyState:
  "steady c ev \<Longrightarrow> readyState (sock (step stringify now ev h) c) = readyState (sock h c)"
proof (cases ev)
  case (Message c' msg)
  then show ?thesis
    by (cases msg) (simp_all add: step_def on_message_sock)
next
  case (Publish d)
  then show ?thesis
    by (simp add: step_Publish fan_out_readyState split: option.split)
qed (simp_all add: step_def on_connection_sock on_close_sock on_error_sock steady_def)

lemma run_sendThrows:
  "\<forall>(t, ev) \<in> set evs. steady c ev \<Longrightarrow>
   sendThrows (sock (run stringify evs h) c) = sendThrows (sock h c)"
proof (induction evs arbitrary: h)
  case Nil
  show ?case by simp
next
  case (Cons a evs)
  obtain now ev where a: "a = (now, ev)" by (cases a)
  with Cons.prems have st: "steady c ev" and rest: "\<forall>(t, ev) \<in> set evs. steady c ev"
    by auto
  have "sendThrows (sock (run stringify evs (step stringify now ev h)) c) =
          sendThrows (sock (step stringify now ev h) c)"
    using rest by (rule Cons.IH)
  also have "\<dots> = sendThrows (sock h c)"
    using st by (rule step_sendThrows)
  finally show ?case by (simp only: a run.simps)
qed

lemma run_readyState:
  "\<forall>(t, ev) \<in> set evs. steady c ev \<Longrightarrow>
   readyState (sock (run stringify evs h) c) = readyState (sock h c)"
proof (induction evs arbitrary: h)
  case Nil
  show ?case by simp
next
  case (Cons a evs)
  obtain now ev where a: "a = (now, ev)" by (cases a)
  with Cons.prems have st: "steady c ev" and rest: "\<forall>(t, ev) \<in> set evs. steady c ev"
    by auto
  have "readyState (sock (run stringify evs (step stringify now ev h)) c) =
          readyState (sock (step stringify now ev h) c)"
    using rest by (rule Cons.IH)
  also have "\<dots> = readyState (sock h c)"
    using st by (rule step_readyState)
  finally show ?case by (simp only: a run.simps)
qed

lemma step_sent_grows:
  "distinct (clients h) \<Longrightarrow> \<exists>ks. sent (sock (step stringify now ev h) c) = sent (sock h c) @ ks"
proof (cases ev)
  case (Message c' msg)
  then show ?thesis
    by (cases msg) (simp_all add: step_def on_message_sock)
next
  case (Publish d)
  then show ?thesis if "distinct (clients h)"
    using that by (simp add: step_Publish fan_out_sent split: option.split)
qed (simp_all add: step_def on_connection_sock on_close_sock on_error_sock)

lemma run_sent_grows:
  "distinct (clients h) \<Longrightarrow> \<exists>ks. sent (sock (run stringify evs h) c) = sent (sock h c) @ ks"
proof (induction evs arbitrary: h)
  case Nil
  then show ?case by simp
next
  case (Cons a evs)
  obtain now ev where a: "a = (now, ev)" by (cases a)
  from Cons.prems have d: "distinct (clients (step stringify now ev h))" by (rule step_distinct)
  obtain ks where "sent (sock (step stringify now ev h) c) = sent (sock h c) @ ks"
    using step_sent_grows [OF Cons.prems] by blast
  moreover obtain ls where "sent (sock (run stringify evs (step stringify now ev h)) c) =
      sent (sock (step stringify now ev h) c) @ ls"
    using Cons.IH [OF d] by blast
  ultimately show ?case using a by simp
qed

lemma run_append: "run stringify (xs @ ys) h = run stringify ys (run stringify xs h)"
  by (induction xs arbitrary: h) auto

lemma step_outside:
  assumes "c \<notin> set (clients h)" and "ev \<noteq> Connection c"
  shows "c \<notin> set (clients (step stringify now ev h)) \<and>
         data_frames (sent (sock (step stringify now ev h) c)) = data_frames (sent (sock h c))"
proof (cases ev)
  case (Connection c')
  with assms show ?thesis
    by (simp add: step_def on_connection_clients on_connection_sock set_add_set)
next
  case (Message c' msg)
  with assms show ?thesis
    by (cases msg)
       (simp_all add: step_def on_message_clients on_message_sock data_frames_append)
next
  case (Close c')
  with assms show ?thesis
    by (simp add: step_def on_close_clients on_close_sock set_delete_set)
next
  case (Error c')
  with assms show ?thesis
    by (simp add: step_def on_error_clients on_error_sock set_delete_set)
next
  case (Publish d)
  with assms show ?thesis
    by (simp add: step_Publish fan_out_clients fan_out_not_visited split: option.split)
next
  case (Drain c')
  with assms show ?thesis
    by (simp add: step_def)
next
  case (Transport c' r t)
  with assms show ?thesis
    by (simp add: step_def)
qed

lemma run_outside:
  "c \<notin> set (clients h) \<Longrightarrow> \<forall>(t, ev) \<in> set evs. ev \<noteq> Connection c \<Longrightarrow>
   c \<notin> set (clients (run stringify evs h)) \<and>
   data_frames (sent (sock (run stringify evs h) c)) = data_frames (sent (sock h c))"
proof (induction evs arbitrary: h)
  case Nil
  then show ?case by simp
next
  case (Cons a evs)
  obtain now ev where a: "a = (now, ev)" by (cases a)
  with Cons.prems have ne: "ev \<noteq> Connection c" and rest: "\<forall>(t, ev) \<in> set evs. ev \<noteq> Connection c"
    by auto
  have s: "c \<notin> set (clients (step stringify now ev h))"
    "data_frames (sent (sock (step stringify now ev h) c)) = data_frames (sent (sock h c))"
    using step_outside [OF Cons.prems(1) ne] by simp_all
  from Cons.IH [OF s(1) rest] s(2) a show ?case by simp
qed

lemma step_keeps_client:
  assumes "c \<in> set (clients h)" and "\<not> sendThrows (sock h c)"
    and "ev \<noteq> Close c" and "ev \<noteq> Error c"
  shows "c \<in> set (clients (step stringify now ev h))"
proof (cases ev)
  case (Publish d)
  with assms show ?thesis
    by (simp add: step_Publish fan_out_clients split: option.split)
qed (use assms in \<open>simp_all add: step_def on_connection_clients on_message_clients
       on_close_clients on_error_clients set_add_set set_delete_set\<close>)

lemma run_keeps_client:
  "c \<in> set (clients h) \<Longrightarrow> \<not> sendThrows (sock h c) \<Longrightarrow>
   \<forall>(t, ev) \<in> set evs. ev \<noteq> Close c \<and> ev \<noteq> Error c \<and> steady c ev \<Longrightarrow>
   c \<in> set (clients (run stringify evs h))"
proof (induction evs arbitrary: h)
  case Nil
  then show ?case by simp
next
  case (Cons a evs)
  obtain now ev where a: "a = (now, ev)" by (cases a)
  with Cons.prems have ne: "ev \<noteq> Close c" "ev \<noteq> Error c" and st: "steady c ev"
    and rest: "\<forall>(t, ev) \<in> set evs. ev \<noteq> Close c \<and> ev \<noteq> Error c \<and> steady c ev"
    by auto
  have 1: "c \<in> set (clients (step stringify now ev h))"
    using step_keeps_client [OF Cons.prems(1,2) ne] .
  have 2: "\<not> sendThrows (sock (step stringify now ev h) c)"
    unfolding step_sendThrows [OF st] by (rule Cons.prems(2))
  from Cons.IH [OF 1 2 rest] a show ?case by simp
qed

lemma publishes_grow_queue:
  "distinct (clients h) \<Longrightarrow> c \<in> set (clients h) \<Longrightarrow> readyState (sock h c) = OPEN \<Longrightarrow>
   \<not> sendThrows (sock h c) \<Longrightarrow> stringify d = Some m \<Longrightarrow>
   c \<in> set (clients (run stringify (map (\<lambda>t. (t, Publish d)) ts) h)) \<and>
   queued (sock (run stringify (map (\<lambda>t. (t, Publish d)) ts) h) c) = queued (sock h c) + length ts"
proof (induction ts arbitrary: h)
  case Nil
  then show ?case by simp
next
  case (Cons t ts)
  let ?h1 = "step stringify t (Publish d) h"
  have h1: "?h1 = fan_out m (clients h) h"
    using Cons.prems(5) by (simp add: step_Publish)
  have 1: "distinct (clients ?h1)" using Cons.prems(1) by (rule step_distinct)
  have 2: "c \<in> set (clients ?h1)"
    using Cons.prems(2,4) by (simp add: h1 fan_out_clients)
  have st: "steady c (Publish d)" by (simp add: steady_def)
  have 3: "readyState (sock ?h1 c) = OPEN"
    using Cons.prems(3) by (simp only: step_readyState [OF st])
  have 4: "\<not> sendThrows (sock ?h1 c)"
    unfolding step_sendThrows [OF st] by (rule Cons.prems(4))
  have 5: "queued (sock ?h1 c) = queued (sock h c) + 1"
    using Cons.prems(1-4) by (simp add: h1 fan_out_queued)
  from Cons.IH [OF 1 2 3 4 Cons.prems(5)] 5 show ?case by simp
qed

text \<open>The definitions that evaluate the hub on a concrete list of events.\<close>

lemmas hub_eval =
  step_def on_connection_def on_message_def on_close_def on_error_def broadcast_def
  send_to_def ws_send_def set_add_def set_delete_def hub0_def fresh_socket_def Let_def
  encode_def

section \<open>The listeners and the event loop of the client\<close>

text \<open>
  The queue of the client is never used: \<^verbatim>\<open>handleMessage\<close> queues only while the queue is
  being processed, and \<^verbatim>\<open>processMessageQueue\<close> starts only on a queue that is not empty.
\<close>

lemma call_listeners_invoked:
  "invoked (foldl (call_listener throws d) st cbs) = invoked st @ map (\<lambda>cb. (cb, d)) cbs"
  by (induction cbs arbitrary: st) (simp_all add: call_listener_def Let_def)

lemma call_listeners_queue:
  "isProcessingQueue (foldl (call_listener throws d) st cbs) = isProcessingQueue st \<and>
   messageQueue (foldl (call_listener throws d) st cbs) = messageQueue st \<and>
   processNextPending (foldl (call_listener throws d) st cbs) = processNextPending st \<and>
   listeners (foldl (call_listener throws d) st cbs) = listeners st"
  by (induction cbs arbitrary: st) (simp_all add: call_listener_def Let_def)

lemma call_listeners_backoff:
  "reconnectAttempts (foldl (call_listener throws d) st cbs) = reconnectAttempts st \<and>
   maxReconnectAttempts (foldl (call_listener throws d) st cbs) = maxReconnectAttempts st \<and>
   reconnectDelay (foldl (call_listener throws d) st cbs) = reconnectDelay st \<and>
   timeouts (foldl (call_listener throws d) st cbs) = timeouts st"
  by (induction cbs arbitrary: st) (simp_all add: call_listener_def Let_def)

lemma handleMessage_idle:
  "\<not> isProcessingQueue st \<Longrightarrow>
   invoked (handleMessage throws d st) =
     invoked st @ map (\<lambda>cb. (cb, d)) (listeners_of st (type d) @ listeners_of st ''*'') \<and>
   isProcessingQueue (handleMessage throws d st) = isProcessingQueue st \<and>
   messageQueue (handleMessage throws d st) = messageQueue st \<and>
   processNextPending (handleMessage throws d st) = processNextPending st \<and>
   listeners (handleMessage throws d st) = listeners st"
  by (simp add: handleMessage_def Let_def call_listeners_invoked call_listeners_queue)

lemma handleMessage_backoff:
  "reconnectAttempts (handleMessage throws d st) = reconnectAttempts st \<and>
   maxReconnectAttempts (handleMessage throws d st) = maxReconnectAttempts st \<and>
   reconnectDelay (handleMessage throws d st) = reconnectDelay st \<and>
   timeouts (handleMessage throws d st) = timeouts st"
  by (simp add: handleMessage_def Let_def call_listeners_backoff)

lemma processNext_backoff:
  "reconnectAttempts (processNext throws st) = reconnectAttempts st \<and>
   maxReconnectAttempts (processNext throws st) = maxReconnectAttempts st \<and>
   reconnectDelay (processNext throws st) = reconnectDelay st \<and>
   timeouts (processNext throws st) = timeouts st"
  by (cases "messageQueue st") (simp_all add: processNext_def Let_def handleMessage_backoff)

lemma attemptReconnect_idle: "idle (attemptReconnect st) = idle st"
  by (simp add: attemptReconnect_def idle_def Let_def)

lemma client_step_idle: "idle st \<Longrightarrow> idle (client_step throws ev st)"
proof (cases ev)
  case (WsMessage parsed)
  then show ?thesis if "idle st"
    using that handleMessage_idle [of st throws]
    by (cases parsed) (simp_all add: client_step_def onmessage_def idle_def)
next
  case (ReconnectTimer ok)
  then show ?thesis if "idle st"
    using that attemptReconnect_idle [of "st\<lparr>warnings := warnings st @ [''Failed to connect to WebSocket:'']\<rparr>"]
    by (simp add: client_step_def connect_def idle_def)
next
  case WsClose
  then show ?thesis if "idle st"
    using that attemptReconnect_idle [of "stopHeartbeat (st\<lparr>ws := map_option (\<lambda>r. CLOSED) (ws st), connectionStatus := Disconnected\<rparr>)"]
    by (simp add: client_step_def onclose_def idle_def stopHeartbeat_def)
qed (simp_all add: client_step_def idle_def onopen_def processMessageQueue_def startHeartbeat_def
      onerror_def heartbeatTick_def subscribe_def unsubscribeFn_def unsubscribeAll_def send_def
      disconnect_def stopHeartbeat_def split: option.split)

lemma client_run_idle: "idle st \<Longrightarrow> idle (client_run throws evs st)"
  by (induction evs arbitrary: st) (simp_all add: client_step_idle)

lemma new_service_idle: "idle (new_service ok)"
  by (simp add: new_service_def connect_def rt_fields_def idle_def attemptReconnect_def Let_def)

lemma reachable_idle: "idle (client_run throws evs (new_service ok))"
  by (rule client_run_idle) (rule new_service_idle)

lemma attemptReconnect_backoff:
  "maxReconnectAttempts (attemptReconnect st) = maxReconnectAttempts st \<and>
   reconnectDelay (attemptReconnect st) = reconnectDelay st \<and>
   reconnectAttempts (attemptReconnect st) =
     (if reconnectAttempts st < maxReconnectAttempts st then reconnectAttempts st + 1
      else reconnectAttempts st) \<and>
   timeouts (attemptReconnect st) =
     (if reconnectAttempts st < maxReconnectAttempts st
      then timeouts st @ [reconnectDelay st * 2 ^ reconnectAttempts st]
      else timeouts st)"
  by (simp add: attemptReconnect_def Let_def)

lemma client_step_backoff:
  assumes "ev \<noteq> WsOpen"
  shows "maxReconnectAttempts (client_step throws ev st) = maxReconnectAttempts st \<and>
         reconnectDelay (client_step throws ev st) = reconnectDelay st \<and>
         reconnectAttempts (client_step throws ev st) =
           (if is_failure ev \<and> reconnectAttempts st < maxReconnectAttempts st
            then reconnectAttempts st + 1 else reconnectAttempts st) \<and>
         timeouts (client_step throws ev st) =
           (if is_failure ev \<and> reconnectAttempts st < maxReconnectAttempts st
            then timeouts st @ [reconnectDelay st * 2 ^ reconnectAttempts st] else timeouts st)"
proof (cases ev)
  case WsOpen
  with assms show ?thesis by simp
next
  case (WsMessage parsed)
  then show ?thesis
    by (cases parsed) (simp_all add: client_step_def onmessage_def handleMessage_backoff is_failure_def)
next
  case WsClose
  then show ?thesis
    by (simp add: client_step_def onclose_def attemptReconnect_backoff stopHeartbeat_def is_failure_def)
next
  case (ReconnectTimer ok)
  then show ?thesis
    by (cases ok) (simp_all add: client_step_def connect_def attemptReconnect_backoff is_failure_def)
next
  case ProcessNextTimer
  then show ?thesis
    by (simp add: client_step_def processNext_backoff is_failure_def)
next
  case (CallUnsubscribeFn t cb)
  then show ?thesis
    by (simp add: client_step_def unsubscribeFn_def is_failure_def split: option.split)
qed (simp_all add: client_step_def onerror_def heartbeatTick_def subscribe_def unsubscribeAll_def
       send_def disconnect_def stopHeartbeat_def is_failure_def)

lemma client_run_backoff:
  "WsOpen \<notin> set evs \<Longrightarrow> reconnectAttempts st \<le> maxReconnectAttempts st \<Longrightarrow>
   maxReconnectAttempts (client_run throws evs st) = maxReconnectAttempts st \<and>
   reconnectDelay (client_run throws evs st) = reconnectDelay st \<and>
   timeouts (client_run throws evs st) =
     timeouts st @ map (\<lambda>k. reconnectDelay st * 2 ^ k)
       [reconnectAttempts st ..< min (reconnectAttempts st + failures evs) (maxReconnectAttempts st)]"
proof (induction evs arbitrary: st)
  case Nil
  then show ?case by (simp add: failures_def)
next
  case (Cons ev evs)
  let ?st1 = "client_step throws ev st"
  from Cons.prems have ne: "ev \<noteq> WsOpen" and rest: "WsOpen \<notin> set evs" by auto
  note s = client_step_backoff [OF ne, of throws st]
  have le: "reconnectAttempts ?st1 \<le> maxReconnectAttempts ?st1"
    using s Cons.prems(2) by simp
  note ih = Cons.IH [OF rest le]
  show ?case
  proof (cases "is_failure ev")
    case True
    show ?thesis
    proof (cases "reconnectAttempts st < maxReconnectAttempts st")
      case lt: True
      then have "[reconnectAttempts st ..< min (reconnectAttempts st + failures (ev # evs)) (maxReconnectAttempts st)] =
          reconnectAttempts st # [reconnectAttempts st + 1 ..< min (reconnectAttempts st + 1 + failures evs) (maxReconnectAttempts st)]"
        using True by (simp add: upt_conv_Cons failures_def)
      with True lt ih s show ?thesis by simp
    next
      case False
      with Cons.prems(2) have "reconnectAttempts st = maxReconnectAttempts st" by simp
      with True ih s show ?thesis by simp
    qed
  next
    case False
    then have "failures (ev # evs) = failures evs" by (simp add: failures_def)
    with False ih s show ?thesis by simp
  qed
qed

lemma subscribe_listeners_of:
  "listeners_of (subscribe t cb st) t' = (if t' = t then listeners_of st t @ [cb] else listeners_of st t')"
  by (simp add: subscribe_def listeners_of_def)

lemma hub_order:
  assumes "distinct (clients h)" and "c \<in> set (clients h)" and "readyState (sock h c) = OPEN"
    and "\<not> sendThrows (sock h c)" and "stringify d1 = Some m1" and "stringify d2 = Some m2"
    and "\<forall>(t, ev) \<in> set evs. ev \<noteq> Close c \<and> ev \<noteq> Error c \<and> steady c ev"
  shows "\<exists>mid. data_frames (sent (sock (run stringify ((t1, Publish d1) # evs @ [(t2, Publish d2)]) h) c)) =
           data_frames (sent (sock h c)) @ [m1] @ mid @ [m2]"
proof -
  let ?h1 = "step stringify t1 (Publish d1) h"
  let ?h2 = "run stringify evs ?h1"
  let ?h3 = "step stringify t2 (Publish d2) ?h2"
  have s1: "sent (sock ?h1 c) = sent (sock h c) @ [Data m1]"
    using assms(1-5) by (simp add: step_Publish fan_out_sent)
  have d1: "distinct (clients ?h1)" using assms(1) by (rule step_distinct)
  have c1: "c \<in> set (clients ?h1)"
    using assms(2,4) by (simp add: step_keeps_client)
  have st: "steady c (Publish d1)" by (simp add: steady_def)
  from assms(7) have sts: "\<forall>(t, ev) \<in> set evs. steady c ev" by auto
  have t1: "\<not> sendThrows (sock ?h1 c)"
    unfolding step_sendThrows [OF st] by (rule assms(4))
  have d2: "distinct (clients ?h2)" using d1 by (rule run_distinct)
  have c2: "c \<in> set (clients ?h2)"
    using c1 t1 assms(7) by (rule run_keeps_client)
  have o2: "readyState (sock ?h2 c) = OPEN"
    using assms(3) by (simp only: run_readyState [OF sts] step_readyState [OF st])
  have t2: "\<not> sendThrows (sock ?h2 c)"
    unfolding run_sendThrows [OF sts] by (rule t1)
  obtain ks where s2: "sent (sock ?h2 c) = sent (sock ?h1 c) @ ks"
    using run_sent_grows [OF d1] by blast
  have s3: "sent (sock ?h3 c) = sent (sock ?h2 c) @ [Data m2]"
    using d2 c2 o2 t2 assms(6) by (simp add: step_Publish fan_out_sent)
  have "run stringify ((t1, Publish d1) # evs @ [(t2, Publish d2)]) h = ?h3"
    by (simp add: run_append)
  then have "data_frames (sent (sock (run stringify ((t1, Publish d1) # evs @ [(t2, Publish d2)]) h) c)) =
      data_frames (sent (sock h c)) @ [m1] @ data_frames ks @ [m2]"
    by (simp only: s1 s2 s3 data_frames_append data_frames.simps append_assoc)
  then show ?thesis by blast
qed

text \<open>
  The listeners of a type in the state of the client are the callbacks that the calls made on
  it have registered.
\<close>

lemma call_listeners_heartbeat:
  "ws (foldl (call_listener throws d) st cbs) = ws st \<and>
   heartbeatInterval (foldl (call_listener throws d) st cbs) = heartbeatInterval st \<and>
   outbox (foldl (call_listener throws d) st cbs) = outbox st"
  by (induction cbs arbitrary: st) (simp_all add: call_listener_def Let_def)

lemma call_listeners_warnings:
  "warnings (foldl (call_listener throws d) st cbs) =
     warnings st @ map (\<lambda>cb. ''Error in WebSocket listener:'') (filter (\<lambda>cb. throws cb d) cbs)"
  by (induction cbs arbitrary: st) (simp_all add: call_listener_def Let_def)

lemma handleMessage_heartbeat:
  "ws (handleMessage throws d st) = ws st \<and>
   heartbeatInterval (handleMessage throws d st) = heartbeatInterval st \<and>
   outbox (handleMessage throws d st) = outbox st"
  by (simp add: handleMessage_def Let_def call_listeners_heartbeat)

lemma handleMessage_listeners: "listeners (handleMessage throws d st) = listeners st"
  by (simp add: handleMessage_def Let_def call_listeners_queue)

lemma processNext_heartbeat:
  "ws (processNext throws st) = ws st \<and>
   heartbeatInterval (processNext throws st) = heartbeatInterval st \<and>
   outbox (processNext throws st) = outbox st"
  by (cases "messageQueue st") (simp_all add: processNext_def Let_def handleMessage_heartbeat)

lemma processNext_listeners: "listeners (processNext throws st) = listeners st"
  by (cases "messageQueue st") (simp_all add: processNext_def Let_def handleMessage_listeners)

lemma onopen_heartbeat:
  "ws (onopen throws st) = map_option (\<lambda>r. OPEN) (ws st) \<and>
   heartbeatInterval (onopen throws st) = Some 30000 \<and>
   outbox (onopen throws st) = outbox st"
  by (simp add: onopen_def processMessageQueue_def processNext_heartbeat startHeartbeat_def)

lemma onclose_heartbeat:
  "heartbeatInterval (onclose st) = None \<and> outbox (onclose st) = outbox st"
  by (simp add: onclose_def attemptReconnect_def stopHeartbeat_def Let_def)

lemma client_step_listeners_of:
  "listeners_of (client_step throws ev st) t = reg_step t ev (listeners_of st t)"
proof (cases ev)
  case WsOpen
  then show ?thesis
    by (simp add: client_step_def onopen_def processMessageQueue_def processNext_listeners
          startHeartbeat_def listeners_of_def reg_step_def)
next
  case (WsMessage parsed)
  then show ?thesis
    by (cases parsed)
       (simp_all add: client_step_def onmessage_def handleMessage_listeners listeners_of_def
          reg_step_def)
next
  case WsClose
  then show ?thesis
    by (simp add: client_step_def onclose_def attemptReconnect_def stopHeartbeat_def Let_def
          listeners_of_def reg_step_def)
next
  case (ReconnectTimer ok)
  then show ?thesis
    by (simp add: client_step_def connect_def attemptReconnect_def Let_def listeners_of_def
          reg_step_def)
next
  case ProcessNextTimer
  then show ?thesis
    by (simp add: client_step_def processNext_listeners listeners_of_def reg_step_def)
next
  case (CallSubscribe t' cb)
  then show ?thesis
    by (simp add: client_step_def subscribe_def listeners_of_def reg_step_def)
next
  case (CallUnsubscribeFn t' cb)
  then show ?thesis
    by (simp add: client_step_def unsubscribeFn_def listeners_of_def reg_step_def
          split: option.split)
qed (simp_all add: client_step_def onerror_def heartbeatTick_def unsubscribeAll_def send_def
       disconnect_def stopHeartbeat_def listeners_of_def reg_step_def)

lemma client_run_listeners_of:
  "listeners_of (client_run throws evs st) t = registered t evs (listeners_of st t)"
  by (induction evs arbitrary: st) (simp_all add: client_step_listeners_of)

lemma new_service_listeners_of: "listeners_of (new_service ok) t = []"
  by (simp add: new_service_def connect_def attemptReconnect_def rt_fields_def listeners_of_def
        Let_def)

lemma reachable_listeners_of:
  "listeners_of (client_run throws evs (new_service ok)) t = registered t evs []"
  by (simp add: client_run_listeners_of new_service_listeners_of)


section \<open>Isolation of a failing connection\<close>

text \<open>
  C3. When the write to one connection \<open>f\<close> of the client set throws during a broadcast,
  the broadcast still returns normally to its caller, \<open>f\<close> is no longer in the client set,
  every other connection of the set that is open and whose write does not throw stays in the
  set and is sent exactly the one message, and a later broadcast writes nothing to \<open>f\<close>.
\<close>

theorem broadcast_isolation:
  assumes "distinct (clients h)" and "stringify d = Some m"
    and "f \<in> set (clients h)" and "readyState (sock h f) = OPEN" and "sendThrows (sock h f)"
  shows "\<exists>h'. broadcast stringify d h = Inr h' \<and> f \<notin> set (clients h') \<and>
           sock h' f = sock h f \<and>
           (\<forall>c \<in> set (clients h). c \<noteq> f \<and> readyState (sock h c) = OPEN \<and> \<not> sendThrows (sock h c)
              \<longrightarrow> c \<in> set (clients h') \<and> sent (sock h' c) = sent (sock h c) @ [Data m]) \<and>
           (\<forall>d2 m2 h2. stringify d2 = Some m2 \<and> broadcast stringify d2 h' = Inr h2
              \<longrightarrow> sent (sock h2 f) = sent (sock h' f))"
proof -
  let ?h' = "fan_out m (clients h) h"
  have r: "broadcast stringify d h = Inr ?h'"
    using assms(2) by (simp add: broadcast_def)
  have a: "f \<notin> set (clients ?h')"
    using assms(3,4,5) by (simp add: fan_out_clients)
  have s: "sock ?h' f = sock h f"
    using assms(1,3,5) by (simp add: fan_out_visited send_to_self)
  have b: "c \<in> set (clients ?h') \<and> sent (sock ?h' c) = sent (sock h c) @ [Data m]"
    if "c \<in> set (clients h)" "readyState (sock h c) = OPEN" "\<not> sendThrows (sock h c)" for c
    using that assms(1) by (simp add: fan_out_clients fan_out_visited send_to_self)
  have c: "sent (sock h2 f) = sent (sock ?h' f)"
    if "stringify d2 = Some m2" "broadcast stringify d2 ?h' = Inr h2" for d2 m2 h2
    using that a by (auto simp: broadcast_def fan_out_not_visited)
  show ?thesis using r a s b c by blast
qed

theorem broadcast_isolation_witness:
  "distinct (clients hubW) \<and> encode alert0 = Some ''alert:Storm'' \<and> 1 \<in> set (clients hubW) \<and>
   readyState (sock hubW 1) = OPEN \<and> sendThrows (sock hubW 1) \<and>
   (\<exists>h'. broadcast encode alert0 hubW = Inr h' \<and> 1 \<notin> set (clients h') \<and>
      2 \<in> set (clients h') \<and> sent (sock h' 2) = [Data ''alert:Storm''] \<and> sent (sock h' 1) = [])"
proof -
  have hyps: "distinct (clients hubW)" "encode alert0 = Some ''alert:Storm''"
    "1 \<in> set (clients hubW)" "readyState (sock hubW 1) = OPEN" "sendThrows (sock hubW 1)"
    by (simp_all add: hubW_def hub0_def fresh_socket_def encode_def alert0_def)
  obtain h' where h': "broadcast encode alert0 hubW = Inr h'" "1 \<notin> set (clients h')"
      "sock h' 1 = sock hubW 1"
      "\<forall>c \<in> set (clients hubW). c \<noteq> 1 \<and> readyState (sock hubW c) = OPEN \<and> \<not> sendThrows (sock hubW c)
         \<longrightarrow> c \<in> set (clients h') \<and> sent (sock h' c) = sent (sock hubW c) @ [Data ''alert:Storm'']"
    using broadcast_isolation [of hubW encode alert0 "''alert:Storm''" 1] hyps by blast
  have "2 \<in> set (clients hubW)" "(2::nat) \<noteq> 1" "readyState (sock hubW 2) = OPEN"
    "\<not> sendThrows (sock hubW 2)" "sent (sock hubW 2) = []" "sent (sock hubW 1) = []"
    by (simp_all add: hubW_def hub0_def fresh_socket_def)
  with h' have "2 \<in> set (clients h')" "sent (sock h' 2) = [Data ''alert:Storm'']"
    "sent (sock h' 1) = []"
    by auto
  with hyps h' show ?thesis by blast
qed


section \<open>Fan-out and subscriptions\<close>

text \<open>
  C1, as stated, fails. In scenario A the connection 2 has subscribed to nothing, so it is
  not in the specification's subscriber set of \<open>alert\<close>; the broadcast of an alert is
  written to it all the same (after its welcome message).
\<close>

theorem fanout_topic_counterexample:
  "2 \<notin> set (spec_subscribersOf ''alert'' scenario_A) \<and>
   sent (sock (run encode (scenario_A @ [(3, Publish alert0)]) hub0) 2) =
     [Welcome 1, Data ''alert:Storm'']"
  by (simp add: scenario_A_def alert0_def hub_eval spec_subscribersOf_def spec_registry_step_def)

text \<open>
  C1, amended. A broadcast of a serialisable envelope returns normally and writes exactly
  one copy of the serialised envelope to every connection that is in the hub's client set,
  open, and whose write does not throw, whatever the connection has subscribed to; it writes
  nothing to any other connection. A \<^verbatim>\<open>subscribe\<close> message changes neither the client set
  nor any socket.
\<close>

theorem fanout_all_open:
  assumes "distinct (clients h)" and "stringify d = Some m"
  shows "\<exists>h'. broadcast stringify d h = Inr h' \<and>
           (\<forall>c. sent (sock h' c) =
                  sent (sock h c) @
                    (if c \<in> set (clients h) \<and> readyState (sock h c) = OPEN \<and> \<not> sendThrows (sock h c)
                     then [Data m] else [])) \<and>
           (\<forall>now c ts. clients (on_message now c (Subscribe ts) h) = clients h \<and>
                        sock (on_message now c (Subscribe ts) h) = sock h)"
  using assms by (simp add: broadcast_Inr fan_out_sent on_message_Subscribe)

theorem fanout_all_open_witness:
  "distinct (clients hubW) \<and> encode alert0 = Some ''alert:Storm'' \<and>
   (\<exists>h'. broadcast encode alert0 hubW = Inr h' \<and> sent (sock h' 1) = [] \<and>
      sent (sock h' 2) = [Data ''alert:Storm''] \<and> sent (sock h' 3) = [])"
proof -
  have hyps: "distinct (clients hubW)" "encode alert0 = Some ''alert:Storm''"
    by (simp_all add: hubW_def hub0_def encode_def alert0_def)
  obtain h' where h': "broadcast encode alert0 hubW = Inr h'"
    "\<forall>c. sent (sock h' c) =
          sent (sock hubW c) @
            (if c \<in> set (clients hubW) \<and> readyState (sock hubW c) = OPEN \<and> \<not> sendThrows (sock hubW c)
             then [Data ''alert:Storm''] else [])"
    using fanout_all_open [of hubW encode alert0 "''alert:Storm''"] hyps by blast
  have "sent (sock h' 1) = []" "sent (sock h' 2) = [Data ''alert:Storm'']" "sent (sock h' 3) = []"
    by (simp_all add: h'(2) hubW_def hub0_def fresh_socket_def)
  with hyps h'(1) show ?thesis by blast
qed

section \<open>Unsubscribing\<close>

text \<open>
  C2, as stated, fails. In scenario B the connection 1 subscribes to \<open>oceanographic\<close> and
  unsubscribes, so it is not in the specification's subscriber set; the broadcast that
  follows is written to it.
\<close>

theorem unsubscribe_counterexample:
  "1 \<notin> set (spec_subscribersOf ''oceanographic'' scenario_B) \<and>
   sent (sock (run encode (scenario_B @ [(3, Publish ocean0)]) hub0) 1) =
     [Welcome 0, Data ''oceanographic:sst=18'']"
  by (simp add: scenario_B_def ocean0_def hub_eval spec_subscribersOf_def spec_registry_step_def)

text \<open>
  C2, amended. An \<^verbatim>\<open>unsubscribe\<close> message cancels nothing: an open connection of the
  client set whose write does not throw is sent the next broadcast after its
  \<^verbatim>\<open>unsubscribe\<close> as before. Deliveries to a connection stop with its close or error
  event: whatever events follow that are not a new connection of the same socket, none of
  them writes a broadcast to it. The Socket.IO handler of \<^verbatim>\<open>unsubscribe\<close> takes the socket
  out of its one room, whatever types the message names.
\<close>

theorem unsubscribe_keeps_delivery:
  assumes "distinct (clients h)" and "c \<in> set (clients h)"
    and "readyState (sock h c) = OPEN" and "\<not> sendThrows (sock h c)"
    and "stringify d = Some m" and "\<forall>(t, ev) \<in> set evs. ev \<noteq> Connection c"
  shows "sent (sock (step stringify t2 (Publish d) (on_message t1 c (Unsubscribe ts) h)) c) =
           sent (sock h c) @ [Data m] \<and>
         data_frames (sent (sock (run stringify evs (on_close c h)) c)) = data_frames (sent (sock h c)) \<and>
         data_frames (sent (sock (run stringify evs (on_error c h)) c)) = data_frames (sent (sock h c)) \<and>
         sid \<notin> set (rooms (io_unsubscribe sid ts' srv) ''realtime-data'')"
proof -
  have "c \<notin> set (clients (on_close c h))" "c \<notin> set (clients (on_error c h))"
    by (simp_all add: on_close_clients on_error_clients set_delete_set)
  from run_outside [OF this(1) assms(6)] run_outside [OF this(2) assms(6)]
  have "data_frames (sent (sock (run stringify evs (on_close c h)) c)) = data_frames (sent (sock h c))"
    "data_frames (sent (sock (run stringify evs (on_error c h)) c)) = data_frames (sent (sock h c))"
    by (simp_all add: on_close_sock on_error_sock)
  moreover have "sent (sock (step stringify t2 (Publish d) (on_message t1 c (Unsubscribe ts) h)) c) =
           sent (sock h c) @ [Data m]"
    using assms(1-5) by (simp add: step_Publish fan_out_sent on_message_Unsubscribe)
  moreover have "sid \<notin> set (rooms (io_unsubscribe sid ts' srv) ''realtime-data'')"
    by (simp add: io_unsubscribe_def set_delete_set)
  ultimately show ?thesis by simp
qed

theorem unsubscribe_keeps_delivery_witness:
  "sent (sock (step encode 4 (Publish ocean0) (on_message 3 2 (Unsubscribe [''oceanographic'']) hubW)) 2) =
     [Data ''oceanographic:sst=18''] \<and>
   data_frames (sent (sock (run encode events_W (on_close 2 hubW)) 2)) = [] \<and>
   data_frames (sent (sock (run encode events_W (on_error 2 hubW)) 2)) = [] \<and>
   rooms (io_unsubscribe 4 [''vessel''] (io_subscribe 1 4 [''alert''] io_server0)) ''realtime-data'' = []"
proof -
  have hyps: "distinct (clients hubW)" "2 \<in> set (clients hubW)" "readyState (sock hubW 2) = OPEN"
    "\<not> sendThrows (sock hubW 2)" "encode ocean0 = Some ''oceanographic:sst=18''"
    "\<forall>(t, ev) \<in> set events_W. ev \<noteq> Connection 2"
    by (simp_all add: hubW_def hub0_def fresh_socket_def encode_def ocean0_def events_W_def)
  have "sent (sock hubW 2) = []"
    by (simp add: hubW_def hub0_def fresh_socket_def)
  moreover have "rooms (io_unsubscribe 4 [''vessel''] (io_subscribe 1 4 [''alert''] io_server0))
      ''realtime-data'' = []"
    by (simp add: io_unsubscribe_def io_subscribe_def io_server0_def set_add_def set_delete_def)
  ultimately show ?thesis
    using unsubscribe_keeps_delivery [of hubW 2 encode ocean0 "''oceanographic:sst=18''" events_W 4 3
      "[''oceanographic'']"] hyps
    by simp
qed

section \<open>Errors of a broadcast\<close>




section \<open>Queue depth\<close>

text \<open>
  C4, as stated, fails. In scenario D the transport of the connection 1 writes nothing out:
  after the welcome message and three broadcasts its queue holds 4 messages. Whatever
  limit below 4 is configured, the next broadcast does not disconnect it: it stays in the
  client set, its queue holds 5 messages, and nothing is recorded anywhere.
\<close>

theorem backpressure_counterexample:
  "queued (sock (run encode scenario_D hub0) 1) = 4 \<and>
   clients (run encode (scenario_D @ [(4, Publish alert0)]) hub0) = [1] \<and>
   queued (sock (run encode (scenario_D @ [(4, Publish alert0)]) hub0) 1) = 5 \<and>
   console (run encode (scenario_D @ [(4, Publish alert0)]) hub0) = [''New WebSocket client connected'']"
  by (simp add: scenario_D_def alert0_def hub_eval)

text \<open>
  C4, amended. The hub has no limit on the depth of a connection's outbound queue and no
  drop counter. However many broadcasts are made, an open connection of the client set
  whose write does not throw stays in the set, and its queue grows by one message with each
  broadcast while the transport writes nothing out. A broadcast removes from the client set
  exactly the open connections whose write throws, whatever their queue depth.
\<close>

theorem no_backpressure:
  assumes "distinct (clients h)" and "c \<in> set (clients h)" and "readyState (sock h c) = OPEN"
    and "\<not> sendThrows (sock h c)" and "stringify d = Some m"
  shows "c \<in> set (clients (run stringify (map (\<lambda>t. (t, Publish d)) ts) h)) \<and>
         queued (sock (run stringify (map (\<lambda>t. (t, Publish d)) ts) h) c) = queued (sock h c) + length ts \<and>
         (\<exists>h'. broadcast stringify d h = Inr h' \<and>
            clients h' = filter (\<lambda>c. \<not> (readyState (sock h c) = OPEN \<and> sendThrows (sock h c))) (clients h))"
proof -
  have "clients (fan_out m (clients h) h) =
          filter (\<lambda>c. \<not> (readyState (sock h c) = OPEN \<and> sendThrows (sock h c))) (clients h)"
    by (auto simp: fan_out_clients intro!: filter_cong)
  with publishes_grow_queue [of h c stringify d m ts] assms show ?thesis
    by (simp add: broadcast_Inr)
qed

theorem no_backpressure_witness:
  "2 \<in> set (clients (run encode (map (\<lambda>t. (t, Publish alert0)) [10, 20, 30]) hubW)) \<and>
   queued (sock (run encode (map (\<lambda>t. (t, Publish alert0)) [10, 20, 30]) hubW) 2) = 3 \<and>
   (\<exists>h'. broadcast encode alert0 hubW = Inr h' \<and> clients h' = [2])"
proof -
  have hyps: "distinct (clients hubW)" "2 \<in> set (clients hubW)" "readyState (sock hubW 2) = OPEN"
    "\<not> sendThrows (sock hubW 2)" "encode alert0 = Some ''alert:Storm''"
    by (simp_all add: hubW_def hub0_def fresh_socket_def encode_def alert0_def)
  have q: "queued (sock hubW 2) = 0"
    "filter (\<lambda>c. \<not> (readyState (sock hubW c) = OPEN \<and> sendThrows (sock hubW c))) (clients hubW) = [2]"
    by (simp_all add: hubW_def hub0_def fresh_socket_def)
  from no_backpressure [of hubW 2 encode alert0 "''alert:Storm''" "[10, 20, 30]"] hyps q
  show ?thesis by simp
qed

section \<open>Heartbeats\<close>

text \<open>
  C7, as stated, fails. In scenario E the connection 1 subscribes to \<open>alert\<close> and is last
  heard at time 30000. With a timeout of 60000 ms and a heartbeat interval of 30000 ms it
  has expired, by the specification's rule, at time 1000000. It is then still a subscriber
  of \<open>alert\<close> by the specification's registry and still in the client set, the only set of
  connections the hub has, and the alert broadcast at that time is written to it.
\<close>

theorem heartbeat_timeout_counterexample:
  "spec_subscribersOf ''alert'' scenario_E = [1] \<and>
   spec_expired 60000 30000 1000000 1 scenario_E \<and>
   clients (run encode (scenario_E @ [(1000000, Publish alert0)]) hub0) = [1] \<and>
   sent (sock (run encode (scenario_E @ [(1000000, Publish alert0)]) hub0) 1) =
     [Welcome 0, HeartbeatResponse ''t30'' 30000, Data ''alert:Storm'']"
  by (simp add: scenario_E_def alert0_def hub_eval spec_expired_def hears_def
        spec_subscribersOf_def spec_registry_step_def)

text \<open>
  C7, amended. The client starts an interval of 30000 ms, a constant of
  \<^verbatim>\<open>startHeartbeat\<close>, when its socket opens; each tick of it while the socket is open sends
  one heartbeat, and after the close of the socket a tick sends nothing. The hub answers a
  heartbeat with a \<^verbatim>\<open>heartbeat_response\<close> on the same connection and leaves the client set
  as it is; it keeps no time of the last heartbeat and has no timeout. A connection of the
  client set whose write does not throw stays in the set through any events, at any times,
  that are neither its own close or error event nor a change of its transport.
\<close>

theorem heartbeat_no_timeout:
  assumes "c \<in> set (clients h)" and "\<not> sendThrows (sock h c)"
    and "\<forall>(t, ev) \<in> set evs. ev \<noteq> Close c \<and> ev \<noteq> Error c \<and> steady c ev"
    and "ws st = Some r"
  shows "c \<in> set (clients (run stringify evs h)) \<and>
         clients (on_message now c (Heartbeat ts) h) = clients h \<and>
         sent (sock (on_message now c (Heartbeat ts) h) c) = sent (sock h c) @ [HeartbeatResponse ts now] \<and>
         heartbeatInterval (startHeartbeat st) = Some 30000 \<and>
         heartbeatInterval (client_step throws WsOpen st) = Some 30000 \<and>
         outbox (client_step throws (HeartbeatTimer ts) (client_step throws WsOpen st)) =
           outbox st @ [Heartbeat ts] \<and>
         heartbeatInterval (client_step throws WsClose (client_step throws WsOpen st)) = None \<and>
         outbox (client_step throws (HeartbeatTimer ts)
                   (client_step throws WsClose (client_step throws WsOpen st))) = outbox st"
proof -
  have hub: "c \<in> set (clients (run stringify evs h))"
    "clients (on_message now c (Heartbeat ts) h) = clients h"
    "sent (sock (on_message now c (Heartbeat ts) h) c) = sent (sock h c) @ [HeartbeatResponse ts now]"
    using run_keeps_client [OF assms(1-3)] assms(2)
    by (simp_all add: on_message_clients on_message_sock)
  let ?o = "client_step throws WsOpen st"
  have o: "ws ?o = Some OPEN" "heartbeatInterval ?o = Some 30000" "outbox ?o = outbox st"
    using assms(4) by (simp_all add: client_step_def onopen_heartbeat)
  then have t: "outbox (client_step throws (HeartbeatTimer ts) ?o) = outbox st @ [Heartbeat ts]"
    by (simp add: client_step_def heartbeatTick_def)
  let ?c = "client_step throws WsClose ?o"
  have c: "heartbeatInterval ?c = None" "outbox ?c = outbox st"
    using o by (simp_all add: client_step_def onclose_heartbeat)
  then have u: "outbox (client_step throws (HeartbeatTimer ts) ?c) = outbox st"
    by (simp add: client_step_def)
  from hub o t c u show ?thesis by (simp add: startHeartbeat_def)
qed

theorem heartbeat_no_timeout_witness:
  "2 \<in> set (clients (run encode events_H hubW)) \<and>
   clients (on_message 30000 2 (Heartbeat ''t30'') hubW) = [1, 2] \<and>
   sent (sock (on_message 30000 2 (Heartbeat ''t30'') hubW) 2) = [HeartbeatResponse ''t30'' 30000] \<and>
   heartbeatInterval (client_step (\<lambda>cb d. False) WsOpen (new_service True :: string rt_service)) = Some 30000 \<and>
   outbox (client_step (\<lambda>cb d. False) (HeartbeatTimer ''t30'')
            (client_step (\<lambda>cb d. False) WsOpen (new_service True :: string rt_service))) = [Heartbeat ''t30''] \<and>
   outbox (client_step (\<lambda>cb d. False) (HeartbeatTimer ''t30'')
            (client_step (\<lambda>cb d. False) WsClose
              (client_step (\<lambda>cb d. False) WsOpen (new_service True :: string rt_service)))) = []"
proof -
  have hyps: "2 \<in> set (clients hubW)" "\<not> sendThrows (sock hubW 2)"
    "\<forall>(t, ev) \<in> set events_H. ev \<noteq> Close 2 \<and> ev \<noteq> Error 2 \<and> steady 2 ev"
    "ws (new_service True :: string rt_service) = Some CONNECTING"
    by (simp_all add: hubW_def hub0_def fresh_socket_def events_H_def steady_def new_service_def
          connect_def rt_fields_def)
  have "clients hubW = [1, 2]" "sent (sock hubW 2) = []"
    "outbox (new_service True :: string rt_service) = []"
    by (simp_all add: hubW_def hub0_def fresh_socket_def new_service_def connect_def rt_fields_def)
  with heartbeat_no_timeout [OF hyps, of encode 30000 "''t30''" "\<lambda>cb d. False"]
  show ?thesis by simp
qed

section \<open>Reconnection\<close>

text \<open>
  C5. From a state whose attempt counter is 0, with at most 5 attempts and a base delay of
  1000 ms (the values of the class), and through any events without a successful
  connection: the timers that \<^verbatim>\<open>attemptReconnect\<close> has set are, in order, one per
  failure and for the first five failures only, with the delays \<open>1000 * 2 ^ (N - 1)\<close> for
  \<open>N = 1, \<dots>, 5\<close>; a sixth failure and any later one sets no timer. A successful connection
  sets the counter to 0 in any state.
\<close>

theorem reconnect_backoff:
  fixes st st' :: "'p rt_service"
  assumes "reconnectAttempts st = 0" and "maxReconnectAttempts st = 5"
    and "reconnectDelay st = 1000" and "WsOpen \<notin> set evs"
  shows "timeouts (client_run throws evs st) =
           timeouts st @ map (\<lambda>k. 1000 * 2 ^ k) [0 ..< min (failures evs) 5] \<and>
         reconnectAttempts (client_step throws WsOpen st') = 0 \<and>
         maxReconnectAttempts (new_service ok :: 'p rt_service) = 5 \<and>
         reconnectDelay (new_service ok :: 'p rt_service) = 1000"
proof -
  have "timeouts (client_run throws evs st) =
           timeouts st @ map (\<lambda>k. 1000 * 2 ^ k) [0 ..< min (failures evs) 5]"
    using client_run_backoff [OF assms(4), of st throws] assms(1-3) by simp
  moreover have "reconnectAttempts (client_step throws WsOpen st') = 0"
    by (simp add: client_step_def onopen_def processMessageQueue_def processNext_backoff
          startHeartbeat_def)
  moreover have "maxReconnectAttempts (new_service ok :: 'p rt_service) = 5"
    "reconnectDelay (new_service ok :: 'p rt_service) = 1000"
    by (simp_all add: new_service_def connect_def rt_fields_def attemptReconnect_backoff)
  ultimately show ?thesis by simp
qed

theorem reconnect_backoff_witness:
  "timeouts (client_run (\<lambda>cb d. False) failing_run rt_fields) = [1000, 2000, 4000, 8000, 16000] \<and>
   reconnectAttempts (client_step (\<lambda>cb d. False) WsOpen (client_run (\<lambda>cb d. False) failing_run rt_fields)) = 0"
proof -
  have hyps: "reconnectAttempts (rt_fields :: string rt_service) = 0"
    "maxReconnectAttempts (rt_fields :: string rt_service) = 5"
    "reconnectDelay (rt_fields :: string rt_service) = 1000"
    "WsOpen \<notin> set failing_run"
    by (simp_all add: rt_fields_def failing_run_def)
  have f: "failures failing_run = 8" "timeouts (rt_fields :: string rt_service) = []"
    by (simp_all add: failures_def is_failure_def failing_run_def rt_fields_def)
  have u: "[0 ..< 5] = [0, 1, 2, 3, 4::nat]"
    by (simp add: upt_rec)
  from reconnect_backoff [OF hyps, of "\<lambda>cb d. False"
      "client_run (\<lambda>cb d. False) failing_run rt_fields" True] f u
  show ?thesis by simp
qed

section \<open>Dispatch of an inbound message\<close>

text \<open>
  C10. In every state that the client reaches from its construction, the receipt of a
  message calls every callback that the calls of \<^verbatim>\<open>subscribe\<close> so far have registered for
  the type of the message and not taken away again, and then every callback so registered
  for \<open>*\<close>, each once per registration and with that message, whichever of them throw; each
  throw is logged and nothing else; the callbacks stay registered and the client stays ready
  for the next message.
\<close>

theorem dispatch_isolation:
  "invoked (client_step throws (WsMessage (Some d)) (client_run throws evs (new_service ok))) =
     invoked (client_run throws evs (new_service ok)) @
       map (\<lambda>cb. (cb, d)) (registered (type d) evs [] @ registered ''*'' evs []) \<and>
   warnings (client_step throws (WsMessage (Some d)) (client_run throws evs (new_service ok))) =
     warnings (client_run throws evs (new_service ok)) @
       map (\<lambda>cb. ''Error in WebSocket listener:'')
         (filter (\<lambda>cb. throws cb d) (registered (type d) evs [] @ registered ''*'' evs [])) \<and>
   listeners_of (client_step throws (WsMessage (Some d)) (client_run throws evs (new_service ok))) t =
     registered t evs [] \<and>
   idle (client_step throws (WsMessage (Some d)) (client_run throws evs (new_service ok)))"
proof -
  let ?st = "client_run throws evs (new_service ok)"
  have i: "idle ?st" by (rule reachable_idle)
  then have n: "\<not> isProcessingQueue ?st" by (simp add: idle_def)
  have l: "listeners_of ?st t' = registered t' evs []" for t'
    by (rule reachable_listeners_of)
  have s: "client_step throws (WsMessage (Some d)) ?st = handleMessage throws d ?st"
    by (simp add: client_step_def onmessage_def)
  have 1: "invoked (handleMessage throws d ?st) =
      invoked ?st @ map (\<lambda>cb. (cb, d)) (registered (type d) evs [] @ registered ''*'' evs [])"
    using handleMessage_idle [OF n, of throws d] by (simp add: l)
  have 2: "warnings (handleMessage throws d ?st) =
      warnings ?st @ map (\<lambda>cb. ''Error in WebSocket listener:'')
         (filter (\<lambda>cb. throws cb d) (registered (type d) evs [] @ registered ''*'' evs []))"
    using n by (simp add: handleMessage_def Let_def call_listeners_warnings l)
  have 3: "listeners_of (handleMessage throws d ?st) t = registered t evs []"
    using l [of t] by (simp add: listeners_of_def handleMessage_listeners)
  have 4: "idle (handleMessage throws d ?st)"
    using client_step_idle [OF i, of throws "WsMessage (Some d)"] by (simp only: s)
  from 1 2 3 4 show ?thesis by (simp only: s)
qed

theorem dispatch_isolation_witness:
  "invoked (client_step (\<lambda>cb d. cb = 7 \<or> cb = 8) (WsMessage (Some alert0))
              (client_run (\<lambda>cb d. cb = 7 \<or> cb = 8) dispatch_run (new_service True))) =
     [(7, alert0), (9, alert0), (8, alert0)] \<and>
   warnings (client_step (\<lambda>cb d. cb = 7 \<or> cb = 8) (WsMessage (Some alert0))
              (client_run (\<lambda>cb d. cb = 7 \<or> cb = 8) dispatch_run (new_service True))) =
     [''Error in WebSocket listener:'', ''Error in WebSocket listener:'']"
proof -
  let ?thr = "\<lambda>(cb::nat) (d::string realtime_data). cb = 7 \<or> cb = 8"
  have r: "registered ''alert'' dispatch_run [] = [7, 9]" "registered ''*'' dispatch_run [] = [8]"
    by (simp_all add: dispatch_run_def reg_step_def)
  have i: "invoked (client_run ?thr dispatch_run (new_service True)) = []"
    "warnings (client_run ?thr dispatch_run (new_service True)) = []"
    by (simp_all add: dispatch_run_def new_service_def connect_def rt_fields_def client_step_def
          onopen_def processMessageQueue_def startHeartbeat_def subscribe_def unsubscribeFn_def
          listeners_of_def)
  have t: "type alert0 = ''alert''" by (simp add: alert0_def)
  have direct: "invoked (client_step ?thr (WsMessage (Some alert0))
                  (client_run ?thr dispatch_run (new_service True))) =
                [(7, alert0), (9, alert0), (8, alert0)]"
    by (simp add: dispatch_run_def new_service_def connect_def rt_fields_def client_step_def
          onopen_def processMessageQueue_def startHeartbeat_def subscribe_def unsubscribeFn_def
          listeners_of_def onmessage_def handleMessage_def call_listener_def alert0_def Let_def)
  from dispatch_isolation [of ?thr alert0 dispatch_run True "''alert''"] r i t direct
  show ?thesis by simp
qed

section \<open>Subscribing twice\<close>



section \<open>Order of delivery\<close>

text \<open>
  C6. When an envelope is broadcast before another, whatever happens in between short of
  the close or the error of the connection or a change of its transport, an open connection
  of the client set whose write does not throw is sent the first text before the second. On the client, two messages
  received one after the other are dispatched in that order: every listener call for the
  first precedes every listener call for the second.
\<close>

theorem order_preserved:
  assumes "distinct (clients h)" and "c \<in> set (clients h)" and "readyState (sock h c) = OPEN"
    and "\<not> sendThrows (sock h c)" and "stringify d1 = Some m1" and "stringify d2 = Some m2"
    and "\<forall>(t, ev) \<in> set evs. ev \<noteq> Close c \<and> ev \<noteq> Error c \<and> steady c ev"
  shows "(\<exists>mid. data_frames (sent (sock (run stringify ((t1, Publish d1) # evs @ [(t2, Publish d2)]) h) c)) =
           data_frames (sent (sock h c)) @ [m1] @ mid @ [m2]) \<and>
         invoked (client_run throws [WsMessage (Some p1), WsMessage (Some p2)]
                    (client_run throws cevs (new_service ok))) =
           invoked (client_run throws cevs (new_service ok)) @
             map (\<lambda>cb. (cb, p1))
               (listeners_of (client_run throws cevs (new_service ok)) (type p1) @
                listeners_of (client_run throws cevs (new_service ok)) ''*'') @
             map (\<lambda>cb. (cb, p2))
               (listeners_of (client_run throws cevs (new_service ok)) (type p2) @
                listeners_of (client_run throws cevs (new_service ok)) ''*'')"
proof -
  let ?st = "client_run throws cevs (new_service ok)"
  let ?st1 = "handleMessage throws p1 ?st"
  have i: "idle ?st" by (rule reachable_idle)
  then have n0: "\<not> isProcessingQueue ?st" by (simp add: idle_def)
  note a = handleMessage_idle [OF n0, of throws p1]
  from a n0 have n1: "\<not> isProcessingQueue ?st1" by simp
  note b = handleMessage_idle [OF n1, of throws p2]
  have l: "listeners_of ?st1 t = listeners_of ?st t" for t
    using a by (simp add: listeners_of_def)
  have "invoked (handleMessage throws p2 ?st1) =
      invoked ?st @ map (\<lambda>cb. (cb, p1)) (listeners_of ?st (type p1) @ listeners_of ?st ''*'') @
        map (\<lambda>cb. (cb, p2)) (listeners_of ?st (type p2) @ listeners_of ?st ''*'')"
    using a b by (simp add: l)
  then have "invoked (client_run throws [WsMessage (Some p1), WsMessage (Some p2)] ?st) =
      invoked ?st @ map (\<lambda>cb. (cb, p1)) (listeners_of ?st (type p1) @ listeners_of ?st ''*'') @
        map (\<lambda>cb. (cb, p2)) (listeners_of ?st (type p2) @ listeners_of ?st ''*'')"
    by (simp add: client_step_def onmessage_def)
  with hub_order [OF assms] show ?thesis by blast
qed

theorem order_preserved_witness:
  "(\<exists>mid. data_frames (sent (sock (run encode ((10, Publish alert0) # events_H @ [(2000000, Publish ocean0)]) hubW) 2)) =
      [''alert:Storm''] @ mid @ [''oceanographic:sst=18'']) \<and>
   invoked (client_run (\<lambda>cb d. cb = 7) [WsMessage (Some alert0), WsMessage (Some ocean0)]
              (client_run (\<lambda>cb d. cb = 7) listening_run (new_service True))) =
     [(7, alert0), (8, alert0), (8, ocean0)]"
proof -
  have hyps: "distinct (clients hubW)" "2 \<in> set (clients hubW)" "readyState (sock hubW 2) = OPEN"
    "\<not> sendThrows (sock hubW 2)" "encode alert0 = Some ''alert:Storm''"
    "encode ocean0 = Some ''oceanographic:sst=18''"
    "\<forall>(t, ev) \<in> set events_H. ev \<noteq> Close 2 \<and> ev \<noteq> Error 2 \<and> steady 2 ev"
    by (simp_all add: hubW_def hub0_def fresh_socket_def encode_def alert0_def ocean0_def events_H_def
          steady_def)
  let ?st = "client_run (\<lambda>cb d. cb = 7) listening_run (new_service True) :: string rt_service"
  have st: "listeners_of ?st ''alert'' = [7]" "listeners_of ?st ''*'' = [8]"
    "listeners_of ?st ''oceanographic'' = []" "invoked ?st = []"
    by (simp_all add: listening_run_def new_service_def connect_def rt_fields_def client_step_def
          onopen_def processMessageQueue_def startHeartbeat_def subscribe_def listeners_of_def)
  have "sent (sock hubW 2) = []" "type alert0 = ''alert''" "type ocean0 = ''oceanographic''"
    by (simp_all add: hubW_def hub0_def fresh_socket_def alert0_def ocean0_def)
  with order_preserved [of hubW 2 encode alert0 "''alert:Storm''" ocean0 "''oceanographic:sst=18''"
      events_H 10 2000000 "\<lambda>cb d. cb = 7" alert0 ocean0 listening_run True] hyps st
  show ?thesis by simp
qed

end
